theory Spec2Isabelle
  imports Main "HOL-Library.Word"
begin

unbundle bit_operations_syntax

section \<open>JavaScript values\<close>

text \<open>
  The values that reach \<open>EventuateClient.js\<close> from its callers and from \<open>JSON.parse\<close>.
  An object is the list of its own enumerable properties in insertion order. Numbers
  are the integers among the doubles; no function below looks at a fractional part.
  \<open>Fun n\<close> is the caller's function number \<open>n\<close>.
\<close>

datatype jsval =
    Undefined
  | Null
  | Bool bool
  | Num int
  | Str string
  | Arr "jsval list"
  | Obj "(string \<times> jsval) list"
  | Fun nat

datatype jstype = TUndefined | TObject | TBoolean | TNumber | TString | TFunction

datatype error =
    TypeError
  | SyntaxError
  | InvariantViolation
  | IncorrectInputParameters

text \<open>\<open>!!v\<close>: the falsy values are \<open>undefined\<close>, \<open>null\<close>, \<open>false\<close>, \<open>0\<close> and \<open>''\<close>.\<close>

fun truthy :: "jsval \<Rightarrow> bool" where
  "truthy Undefined = False"
| "truthy Null = False"
| "truthy (Bool b) = b"
| "truthy (Num n) = (n \<noteq> 0)"
| "truthy (Str s) = (s \<noteq> [])"
| "truthy (Arr xs) = True"
| "truthy (Obj kvs) = True"
| "truthy (Fun f) = True"

text \<open>\<open>typeof v\<close>; \<open>null\<close> and arrays are of type \<open>'object'\<close>.\<close>

fun typeof :: "jsval \<Rightarrow> jstype" where
  "typeof Undefined = TUndefined"
| "typeof Null = TObject"
| "typeof (Bool b) = TBoolean"
| "typeof (Num n) = TNumber"
| "typeof (Str s) = TString"
| "typeof (Arr xs) = TObject"
| "typeof (Obj kvs) = TObject"
| "typeof (Fun f) = TFunction"

text \<open>Decimal digits of a natural number, for array indices used as property names.\<close>

fun digit_char :: "nat \<Rightarrow> char" where
  "digit_char n = char_of (48 + n mod 10)"

fun show_nat :: "nat \<Rightarrow> string" where
  "show_nat n = (if n < 10 then [digit_char n] else show_nat (n div 10) @ [digit_char n])"

declare show_nat.simps [simp del]

definition index_keys :: "nat \<Rightarrow> string list" where
  "index_keys n = map show_nat [0..<n]"

text \<open>
  Own enumerable property names. Assigning a property twice keeps one property, so a
  name occurs once.
\<close>

definition own_keys :: "(string \<times> jsval) list \<Rightarrow> string list" where
  "own_keys kvs = rev (remdups (rev (map fst kvs)))"

text \<open>
  Reading a property \<open>v.k\<close> for the names the client reads (none of them is on a
  prototype): the last assignment to \<open>k\<close> in an object, \<open>undefined\<close> otherwise.
  Reading a property of \<open>undefined\<close> or \<open>null\<close>, or destructuring one of them,
  throws a TypeError: the callers test \<open>nullish\<close> first.
\<close>

fun nullish :: "jsval \<Rightarrow> bool" where
  "nullish Undefined = True"
| "nullish Null = True"
| "nullish v = False"

fun get_prop :: "jsval \<Rightarrow> string \<Rightarrow> jsval" where
  "get_prop (Obj kvs) k = (case map_of (rev kvs) k of Some v \<Rightarrow> v | None \<Rightarrow> Undefined)"
| "get_prop v k = Undefined"

text \<open>
  \<open>Object.keys(v)\<close> (ES2015, as installed by \<open>babel-polyfill\<close>): \<open>ToObject\<close> throws a
  TypeError on \<open>undefined\<close> and \<open>null\<close>; a string has one index property for each
  character, a boolean or a number has none.
\<close>

fun Object_keys :: "jsval \<Rightarrow> error + string list" where
  "Object_keys Undefined = Inl TypeError"
| "Object_keys Null = Inl TypeError"
| "Object_keys (Bool b) = Inr []"
| "Object_keys (Num n) = Inr []"
| "Object_keys (Str s) = Inr (index_keys (length s))"
| "Object_keys (Arr xs) = Inr (index_keys (length xs))"
| "Object_keys (Obj kvs) = Inr (own_keys kvs)"
| "Object_keys (Fun f) = Inr []"

text \<open>
  \<open>Object.assign({}, v)\<close>: a fresh object with the own enumerable properties of \<open>v\<close>;
  \<open>undefined\<close> and \<open>null\<close> sources are skipped.
\<close>

fun Object_assign_empty :: "jsval \<Rightarrow> jsval" where
  "Object_assign_empty (Str s) = Obj (zip (index_keys (length s)) (map (\<lambda>c. Str [c]) s))"
| "Object_assign_empty (Arr xs) = Obj (zip (index_keys (length xs)) xs)"
| "Object_assign_empty (Obj kvs) = Obj (map (\<lambda>k. (k, get_prop (Obj kvs) k)) (own_keys kvs))"
| "Object_assign_empty v = Obj []"

section \<open>checkEvents\<close>

text \<open>
  \<open>JSON.parse\<close> is the platform's: the client takes it as the parameter \<open>parse\<close>, a
  function of the argument as passed (\<open>JSON.parse\<close> converts it to a string itself),
  \<open>None\<close> where it throws a SyntaxError.

  The body of the \<open>every\<close> callback of \<open>checkEvents\<close>, for one element.
\<close>

definition keys_nonempty :: "jsval \<Rightarrow> error + bool" where
  "keys_nonempty ed =
     (case Object_keys ed of
        Inl e \<Rightarrow> Inl e
      | Inr ks \<Rightarrow> if length ks = 0 then Inr False else Inr True)"

definition check_event :: "(jsval \<Rightarrow> jsval option) \<Rightarrow> jsval \<Rightarrow> error + bool" where
  "check_event parse ev =
     (if nullish ev then Inl TypeError
      else
        let eventType = get_prop ev ''eventType'';
            eventData = get_prop ev ''eventData''
        in if \<not> truthy eventType \<or> \<not> truthy eventData then Inr False
           else if typeof eventData = TString then
             (case parse eventData of
                None \<Rightarrow> Inr False
              | Some ed \<Rightarrow> keys_nonempty ed)
           else if typeof eventData = TObject then
             keys_nonempty (Object_assign_empty eventData)
           else Inr False)"

text \<open>\<open>Array.prototype.every\<close>: stops at the first \<open>false\<close>, and a throw leaves the loop.\<close>

fun every_event :: "(jsval \<Rightarrow> jsval option) \<Rightarrow> jsval list \<Rightarrow> error + bool" where
  "every_event parse [] = Inr True"
| "every_event parse (ev # evs) =
     (case check_event parse ev of
        Inl e \<Rightarrow> Inl e
      | Inr ok \<Rightarrow> if ok then every_event parse evs else Inr False)"

definition checkEvents :: "(jsval \<Rightarrow> jsval option) \<Rightarrow> jsval \<Rightarrow> error + bool" where
  "checkEvents parse events =
     (case events of
        Arr evs \<Rightarrow> if length evs = 0 then Inr False else every_event parse evs
      | _ \<Rightarrow> Inr False)"

section \<open>Decoding an event record\<close>

type_synonym token = string

record event =
  eventId :: jsval
  eventType :: jsval
  entityId :: jsval
  swimlane :: jsval
  eventData :: jsval
  eventToken :: jsval
  ack :: token

text \<open>
  \<open>makeEvent(eventStr, ack)\<close>: everything inside the \<open>try\<close> block. \<open>JSON.parse\<close>
  throws a SyntaxError, destructuring \<open>null\<close> a TypeError; both are caught and
  returned as \<open>{ error }\<close>, here \<open>Inl\<close>.
\<close>

definition makeEvent :: "(jsval \<Rightarrow> jsval option) \<Rightarrow> jsval \<Rightarrow> token \<Rightarrow> error + event" where
  "makeEvent parse eventStr ackToken =
     (case parse eventStr of
        None \<Rightarrow> Inl SyntaxError
      | Some v \<Rightarrow>
          if nullish v then Inl TypeError
          else
            (case parse (get_prop v ''eventData'') of
               None \<Rightarrow> Inl SyntaxError
             | Some ed \<Rightarrow>
                 Inr \<lparr> eventId = get_prop v ''id'',
                       eventType = get_prop v ''eventType'',
                       entityId = get_prop v ''entityId'',
                       swimlane = get_prop v ''swimlane'',
                       eventData = ed,
                       eventToken = get_prop v ''eventToken'',
                       ack = ackToken \<rparr>))"

section \<open>AckOrderTracker\<close>

text \<open>
  Modelled from the spec: the module \<open>./stomp/AckOrderTracker\<close> that the client
  imports is not among the sources. The state of one tracker is the queue of
  \<open>{token, completed}\<close> entries in arrival order.
\<close>

type_synonym tracker = "(token \<times> bool) list"

text \<open>
  Modelled from the spec: the constructor of the missing \<open>AckOrderTracker\<close>; a new
  tracker has an empty queue.
\<close>

definition AckOrderTracker_new :: tracker where
  "AckOrderTracker_new = []"

text \<open>
  Modelled from the spec: \<open>add(token)\<close> of the missing \<open>AckOrderTracker\<close> appends
  the token with \<open>completed = false\<close> to the tail of the queue.
\<close>

definition AckOrderTracker_add :: "token \<Rightarrow> tracker \<Rightarrow> tracker" where
  "AckOrderTracker_add t q = q @ [(t, False)]"

text \<open>
  Modelled from the spec: the first step of \<open>ack(token)\<close> of the missing
  \<open>AckOrderTracker\<close> marks the matching queue entry completed; an unknown token
  changes nothing and inserts nothing.
\<close>

fun mark_completed :: "token \<Rightarrow> tracker \<Rightarrow> tracker" where
  "mark_completed t [] = []"
| "mark_completed t ((u, c) # q) =
     (if u = t then (u, True) # q else (u, c) # mark_completed t q)"

text \<open>
  Modelled from the spec: \<open>ack(token)\<close> of the missing \<open>AckOrderTracker\<close> marks the
  entry, then scans from the head, collects the prefix of contiguously completed
  entries, removes them and returns their tokens; the scan stops at the first entry
  not yet completed. The result is the release list and the queue that is left.
\<close>

definition AckOrderTracker_ack :: "token \<Rightarrow> tracker \<Rightarrow> token list \<times> tracker" where
  "AckOrderTracker_ack t q =
     (let q' = mark_completed t q
      in (map fst (takeWhile snd q'), dropWhile snd q'))"

section \<open>The observer and the message callback of one subscribe call\<close>

text \<open>
  The observer that \<open>Rx.Observable.create\<close> (rx 4) hands to the function it is given
  detaches itself: once \<open>onError\<close> has been called it passes nothing more on.
  \<open>emitted\<close> is what the consumer of the observable has seen.
\<close>

datatype notification = OnNext event | OnError error

record observer =
  isStopped :: bool
  emitted :: "notification list"

definition onNext :: "event \<Rightarrow> observer \<Rightarrow> observer" where
  "onNext ev ob = (if isStopped ob then ob else ob\<lparr>emitted := emitted ob @ [OnNext ev]\<rparr>)"

definition onError :: "error \<Rightarrow> observer \<Rightarrow> observer" where
  "onError e ob =
     (if isStopped ob then ob else ob\<lparr>isStopped := True, emitted := emitted ob @ [OnError e]\<rparr>)"

text \<open>
  What one call of \<open>subscribe\<close> closes over: its tracker and, once the observable is
  subscribed to, the observer. \<open>calls\<close> records the calls the message callback makes,
  in the order it makes them.
\<close>

datatype call =
    TrackerAdd token
  | MakeEvent jsval
  | ObserverNext event
  | ObserverError error

record subscriber =
  tracker :: tracker
  observer :: observer
  calls :: "call list"

text \<open>The body of the \<open>forEach\<close> callback: its \<open>return\<close> ends one iteration only.\<close>

definition deliver :: "(jsval \<Rightarrow> jsval option) \<Rightarrow> token \<Rightarrow> jsval \<Rightarrow> subscriber \<Rightarrow> subscriber" where
  "deliver parse tok eventStr sb =
     (case makeEvent parse eventStr tok of
        Inl e \<Rightarrow>
          sb\<lparr>observer := onError e (observer sb),
             calls := calls sb @ [MakeEvent eventStr, ObserverError e]\<rparr>
      | Inr ev \<Rightarrow>
          sb\<lparr>observer := onNext ev (observer sb),
             calls := calls sb @ [MakeEvent eventStr, ObserverNext ev]\<rparr>)"

fun forEach_body :: "(jsval \<Rightarrow> jsval option) \<Rightarrow> token \<Rightarrow> jsval list \<Rightarrow> subscriber \<Rightarrow> subscriber" where
  "forEach_body parse tok [] sb = sb"
| "forEach_body parse tok (eventStr # rest) sb =
     forEach_body parse tok rest (deliver parse tok eventStr sb)"

text \<open>\<open>messageCallback(body, headers)\<close>, with \<open>headers.ack\<close> as \<open>tok\<close>.\<close>

definition messageCallback :: "(jsval \<Rightarrow> jsval option) \<Rightarrow> jsval list \<Rightarrow> token \<Rightarrow> subscriber \<Rightarrow> subscriber" where
  "messageCallback parse body tok sb =
     forEach_body parse tok body
       (sb\<lparr>tracker := AckOrderTracker_add tok (tracker sb),
           calls := calls sb @ [TrackerAdd tok]\<rparr>)"

text \<open>
  Some points of the graph of \<open>JSON.parse\<close>, for running the client on concrete
  inputs: \<open>JSON.parse('null')\<close> is \<open>null\<close>, \<open>JSON.parse('"abc"')\<close> is the string
  \<open>'abc'\<close>, \<open>JSON.parse(undefined)\<close> and \<open>JSON.parse('{')\<close> throw.
\<close>

definition record1 :: jsval where
  "record1 = Str ''{\"id\":\"e1\",\"eventType\":\"T\",\"eventData\":\"1\"}''"

definition record2 :: jsval where
  "record2 = Str ''{\"id\":\"e2\",\"eventType\":\"T\",\"eventData\":\"1\"}''"

definition record3 :: jsval where
  "record3 = Str ''{\"id\":\"e3\"}''"

definition parse_points :: "(jsval \<times> jsval) list" where
  "parse_points =
     [(Str ''null'', Null),
      (Str ''{}'', Obj []),
      (Str ''{\"a\":1}'', Obj [(''a'', Num 1)]),
      (Str ''\"abc\"'', Str ''abc''),
      (Str ''[1]'', Arr [Num 1]),
      (Str ''1'', Num 1),
      (Num 1, Num 1),
      (record1, Obj [(''id'', Str ''e1''), (''eventType'', Str ''T''), (''eventData'', Str ''1'')]),
      (record2, Obj [(''id'', Str ''e2''), (''eventType'', Str ''T''), (''eventData'', Str ''1'')]),
      (record3, Obj [(''id'', Str ''e3'')])]"

definition sample_parse :: "jsval \<Rightarrow> jsval option" where
  "sample_parse v = map_of parse_points v"

section \<open>The client\<close>

text \<open>
  The transport (\<open>./stomp/Stomp\<close>) is outside the client: what the client does to it,
  the timers it sets and the calls it makes to the caller's functions are recorded in
  \<open>effects\<close>, in order. What the transport does to the client is one of the event
  handlers below.
\<close>

record headers =
  subscription_id :: string
  receipt :: string
  destination :: string

text \<open>
  The first argument of a completion callback: nothing (\<open>undefined\<close>), \<open>null\<close>, or
  an error object.
\<close>

datatype reason = NoValue | NullValue | Thrown error

datatype effect =
    StompNew nat
  | StompConnect nat
  | StompSubscribe nat headers
  | StompAck nat token
  | StompDisconnect nat
  | SetTimeout nat
  | CallbackCall nat reason "string option"

text \<open>
  A promise is pending (\<open>settled = None\<close>) or settled; \<open>reactions\<close> are the pairs of
  functions given to \<open>then\<close> while it was pending. The client makes two such pairs:
  the one of \<open>observableCreateAndSubscribe\<close> and the one of \<open>reconnectStompServer\<close>.
\<close>

datatype outcome = Fulfilled | Rejected reason

datatype reaction = SubscribeThen string jsval | ResubscribeThen

record promise =
  settled :: "outcome option"
  reactions :: "reaction list"

record subscription =
  subscriberId :: string
  entityTypesAndEvents :: jsval
  messageCallback_id :: nat
  headers :: headers

text \<open>
  The fields of an \<open>EventuateClient\<close> that the subscription side uses. \<open>promises\<close> is
  the store of the promises made by \<open>connectToStompServer\<close>, \<open>_connPromise\<close> the index
  of one of them; the transport made together with promise \<open>p\<close> is transport \<open>p\<close>.
  \<open>jobs\<close> is the queue of promise reactions that are due. The tables keep their own
  keys in insertion order, the order of \<open>for ... in\<close> for keys that are not array
  indices (receipt ids never are; subscriber ids can be, see \<open>for_in_keys\<close>).
\<close>

record client =
  apiKey :: jsval
  stompHost :: jsval
  stompPort :: jsval
  spaceName :: jsval
  subscriptions :: "(string \<times> subscription) list"
  receipts :: "(string \<times> jsval) list"
  reconnectInterval :: nat
  reconnectIntervalStart :: nat
  stompClient :: "nat option"
  connectionCount :: nat
  connPromise :: "nat option"
  closed :: bool
  promises :: "promise list"
  jobs :: "(reaction \<times> outcome) list"
  effects :: "effect list"

text \<open>The constructor.\<close>

definition new_client :: "jsval \<Rightarrow> jsval \<Rightarrow> jsval \<Rightarrow> jsval \<Rightarrow> client" where
  "new_client key host port space_name =
     \<lparr> apiKey = key, stompHost = host, stompPort = port, spaceName = space_name,
       subscriptions = [], receipts = [],
       reconnectInterval = 500, reconnectIntervalStart = 500,
       stompClient = None, connectionCount = 0, connPromise = None, closed = False,
       promises = [], jobs = [], effects = [] \<rparr>"

text \<open>\<open>table[k] = v\<close>: an existing key keeps its place.\<close>

fun put :: "'k \<Rightarrow> 'v \<Rightarrow> ('k \<times> 'v) list \<Rightarrow> ('k \<times> 'v) list" where
  "put k v [] = [(k, v)]"
| "put k v ((k', v') # kvs) = (if k' = k then (k, v) # kvs else (k', v') # put k v kvs)"

definition emit :: "effect list \<Rightarrow> client \<Rightarrow> client" where
  "emit es s = s\<lparr>effects := effects s @ es\<rparr>"

text \<open>
  Calling a value: a function is called (the call is recorded; the caller's functions
  return), anything else throws a TypeError. The result of an operation that can throw
  is the error, if any, and the state reached.
\<close>

definition invoke :: "jsval \<Rightarrow> reason \<Rightarrow> string option \<Rightarrow> client \<Rightarrow> error option \<times> client" where
  "invoke cb err rid s =
     (case cb of
        Fun f \<Rightarrow> (None, emit [CallbackCall f err rid] s)
      | _ \<Rightarrow> (Some TypeError, s))"

definition addReceipt :: "string \<Rightarrow> jsval \<Rightarrow> client \<Rightarrow> client" where
  "addReceipt rcpt clientSubscribeCallback s =
     s\<lparr>receipts := put rcpt clientSubscribeCallback (receipts s)\<rparr>"

text \<open>
  \<open>addSubscription\<close>. \<open>encode\<close> is \<open>escapeStr(JSON.stringify(.))\<close> (\<open>./specialChars\<close> is
  not among the sources) and \<open>uniqueId\<close> the value of \<open>uuid.v1()\<close> without its dashes.
\<close>

definition destinationObj :: "client \<Rightarrow> string \<Rightarrow> jsval \<Rightarrow> jsval \<Rightarrow> jsval" where
  "destinationObj s sid entity_types options =
     Obj ([(''entityTypesAndEvents'', entity_types), (''subscriberId'', Str sid)]
          @ (if truthy (spaceName s) then [(''space'', spaceName s)] else [])
          @ (if truthy options
             then [(''durability'', get_prop options ''durability''),
                   (''readFrom'', get_prop options ''readFrom''),
                   (''progressNotifications'', get_prop options ''progressNotifications'')]
             else []))"

text \<open>
  \<open>this.subscriptions[subscriberId] = subscription\<close> on the object
  \<open>this.subscriptions\<close>: under the key \<open>__proto__\<close> the assignment replaces the
  prototype of the table and makes no own property.
\<close>

definition put_own :: "string \<Rightarrow> 'v \<Rightarrow> (string \<times> 'v) list \<Rightarrow> (string \<times> 'v) list" where
  "put_own k v kvs = (if k = ''__proto__'' then kvs else put k v kvs)"

definition addSubscription ::
  "(jsval \<Rightarrow> string) \<Rightarrow> string \<Rightarrow> string \<Rightarrow> jsval \<Rightarrow> nat \<Rightarrow> jsval \<Rightarrow> jsval \<Rightarrow> client \<Rightarrow> client" where
  "addSubscription encode uniqueId sid entity_types mcb options clientSubscribeCallback s =
     (let rcpt = ''receipt-id-'' @ uniqueId;
          s1 = addReceipt rcpt clientSubscribeCallback s
      in s1\<lparr>subscriptions :=
             put_own sid
               \<lparr> subscriberId = sid,
                 entityTypesAndEvents = entity_types,
                 messageCallback_id = mcb,
                 headers = \<lparr> subscription_id = ''subscription-id-'' @ uniqueId,
                             receipt = rcpt,
                             destination = encode (destinationObj s sid entity_types options) \<rparr> \<rparr>
               (subscriptions s1)\<rparr>)"

text \<open>
  \<open>connectToStompServer\<close>: the memoized promise if there is one; otherwise a new
  promise, whose executor runs at once. A throw inside the executor rejects the
  promise. The result is the promise and the state.
\<close>

definition new_promise :: "outcome option \<Rightarrow> client \<Rightarrow> client" where
  "new_promise out s =
     s\<lparr>promises := promises s @ [\<lparr>settled = out, reactions = []\<rparr>],
       connPromise := Some (length (promises s))\<rparr>"

definition connectToStompServer :: "client \<Rightarrow> nat \<times> client" where
  "connectToStompServer s =
     (case connPromise s of
        Some p \<Rightarrow> (p, s)
      | None \<Rightarrow>
          let p = length (promises s) in
          if closed s then (p, new_promise (Some (Rejected NoValue)) s)
          else if nullish (apiKey s) then (p, new_promise (Some (Rejected (Thrown TypeError))) s)
          else if \<not> (truthy (stompPort s) \<and> truthy (stompHost s)
                     \<and> truthy (get_prop (apiKey s) ''id'')
                     \<and> truthy (get_prop (apiKey s) ''secret''))
            then (p, new_promise (Some (Rejected (Thrown InvariantViolation))) s)
          else (p, new_promise None
                     (emit [StompNew p, StompConnect p] (s\<lparr>stompClient := Some p\<rparr>))))"

text \<open>
  \<open>promise.then(onFulfilled, onRejected)\<close>: kept while the promise is pending, queued
  as a job once it is settled. Settling a settled promise does nothing.
\<close>

definition then_promise :: "nat \<Rightarrow> reaction \<Rightarrow> client \<Rightarrow> client" where
  "then_promise p r s =
     (if p < length (promises s) then
        (case settled (promises s ! p) of
           None \<Rightarrow>
             s\<lparr>promises := (promises s)[p := (promises s ! p)\<lparr>reactions := reactions (promises s ! p) @ [r]\<rparr>]\<rparr>
         | Some out \<Rightarrow> s\<lparr>jobs := jobs s @ [(r, out)]\<rparr>)
      else s)"

definition settle :: "nat \<Rightarrow> outcome \<Rightarrow> client \<Rightarrow> client" where
  "settle p out s =
     (if p < length (promises s) \<and> settled (promises s ! p) = None then
        s\<lparr>promises := (promises s)[p := \<lparr>settled = Some out, reactions = []\<rparr>],
          jobs := jobs s @ map (\<lambda>r. (r, out)) (reactions (promises s ! p))\<rparr>
      else s)"

text \<open>
  \<open>this.subscriptions.hasOwnProperty(subscriberId)\<close>: the method is the one of
  \<open>Object.prototype\<close> unless the table has a subscription under the key
  \<open>hasOwnProperty\<close>, which is then what the call finds, and it is not a function.
\<close>

definition subscriptions_hasOwnProperty :: "string \<Rightarrow> client \<Rightarrow> error + bool" where
  "subscriptions_hasOwnProperty sid s =
     (case map_of (subscriptions s) ''hasOwnProperty'' of
        Some sub \<Rightarrow> Inl TypeError
      | None \<Rightarrow> Inr (case map_of (subscriptions s) sid of Some sub \<Rightarrow> True | None \<Rightarrow> False))"

text \<open>\<open>doClientSubscribe\<close>; a subscriber id that is not in the table is logged.\<close>

definition doClientSubscribe :: "string \<Rightarrow> client \<Rightarrow> error option \<times> client" where
  "doClientSubscribe sid s =
     (case subscriptions_hasOwnProperty sid s of
        Inl e \<Rightarrow> (Some e, s)
      | Inr False \<Rightarrow> (None, s)
      | Inr True \<Rightarrow>
          (case map_of (subscriptions s) sid of
             None \<Rightarrow> (None, s)
           | Some sub \<Rightarrow>
               (case stompClient s of
                  None \<Rightarrow> (Some TypeError, s)
                | Some c \<Rightarrow> (None, emit [StompSubscribe c (headers sub)] s))))"

text \<open>\<open>reconnectStompServer(interval)\<close> sets the timer; \<open>on_timer\<close> is the timer's function.\<close>

definition reconnectStompServer :: "nat \<Rightarrow> client \<Rightarrow> client" where
  "reconnectStompServer interval s = emit [SetTimeout interval] s"

definition on_timer :: "client \<Rightarrow> client" where
  "on_timer s = (case connectToStompServer s of (p, s1) \<Rightarrow> then_promise p ResubscribeThen s1)"

text \<open>
  The keys that \<open>for ... in\<close> visits on a table: the own keys that are array indices
  (the decimal numerals of 0 to 2^32 - 2, without a leading zero) first, in ascending
  numeric order, then the other own keys in insertion order. (A key inherited from a
  prototype set through \<open>__proto__\<close> fails the \<open>hasOwnProperty\<close> test of both loops.)
\<close>

definition is_digit :: "char \<Rightarrow> bool" where
  "is_digit c = (c \<in> set ''0123456789'')"

definition dec_value :: "string \<Rightarrow> int" where
  "dec_value k = foldl (\<lambda>n c. 10 * n + (of_char c - 48)) 0 k"

definition is_array_index :: "string \<Rightarrow> bool" where
  "is_array_index k =
     (0 < length k \<and> list_all is_digit k
      \<and> (length k = 1 \<or> hd k \<in> set ''123456789'')
      \<and> dec_value k \<le> 4294967294)"

definition for_in_keys :: "(string \<times> 'v) list \<Rightarrow> string list" where
  "for_in_keys kvs =
     sort_key dec_value (filter is_array_index (map fst kvs))
     @ filter (\<lambda>k. \<not> is_array_index k) (map fst kvs)"

text \<open>The two \<open>for ... in\<close> loops of \<open>reconnectStompServer\<close>; a throw leaves the loop.\<close>

fun resubscribe_all :: "string list \<Rightarrow> client \<Rightarrow> error option \<times> client" where
  "resubscribe_all [] s = (None, s)"
| "resubscribe_all (sid # sids) s =
     (case subscriptions_hasOwnProperty sid s of
        Inl e \<Rightarrow> (Some e, s)
      | Inr False \<Rightarrow> resubscribe_all sids s
      | Inr True \<Rightarrow>
          (case doClientSubscribe sid s of
             (Some e, s1) \<Rightarrow> (Some e, s1)
           | (None, s1) \<Rightarrow> resubscribe_all sids s1))"

fun notify_all :: "(string \<times> jsval) list \<Rightarrow> reason \<Rightarrow> client \<Rightarrow> error option \<times> client" where
  "notify_all [] err s = (None, s)"
| "notify_all ((rcpt, cb) # rest) err s =
     (case invoke cb err None s of
        (Some e, s1) \<Rightarrow> (Some e, s1)
      | (None, s1) \<Rightarrow> notify_all rest err s1)"

text \<open>
  Running one reaction of a settled promise. An \<open>onRejected\<close> that is not a function
  is ignored by \<open>then\<close>.
\<close>

fun run_reaction :: "reaction \<Rightarrow> outcome \<Rightarrow> client \<Rightarrow> error option \<times> client" where
  "run_reaction (SubscribeThen sid cb) Fulfilled s = doClientSubscribe sid s"
| "run_reaction (SubscribeThen sid cb) (Rejected err) s =
     (case cb of Fun f \<Rightarrow> invoke cb err None s | _ \<Rightarrow> (None, s))"
| "run_reaction ResubscribeThen Fulfilled s = resubscribe_all (for_in_keys (subscriptions s)) s"
| "run_reaction ResubscribeThen (Rejected err) s = notify_all (receipts s) err s"

definition run_job :: "client \<Rightarrow> error option \<times> client" where
  "run_job s =
     (case jobs s of
        [] \<Rightarrow> (None, s)
      | (r, out) # rest \<Rightarrow> run_reaction r out (s\<lparr>jobs := rest\<rparr>))"

text \<open>The handlers that \<open>connectToStompServer\<close> registers on transport \<open>p\<close>.\<close>

definition on_socketConnected :: "client \<Rightarrow> client" where
  "on_socketConnected s = s\<lparr>reconnectInterval := reconnectIntervalStart s\<rparr>"

definition on_connected :: "nat \<Rightarrow> client \<Rightarrow> client" where
  "on_connected p s = (settle p Fulfilled s)\<lparr>connectionCount := connectionCount s + 1\<rparr>"

definition on_disconnected :: "client \<Rightarrow> client" where
  "on_disconnected s =
     (let s1 = s\<lparr>stompClient := None, connPromise := None\<rparr>
      in if \<not> closed s1 then
           (let s2 = (if reconnectInterval s1 < 16000
                      then s1\<lparr>reconnectInterval := reconnectInterval s1 * 2\<rparr>
                      else s1)
            in reconnectStompServer (reconnectInterval s2) s2)
         else s1)"

definition on_receipt :: "string \<Rightarrow> client \<Rightarrow> error option \<times> client" where
  "on_receipt receiptId s =
     (case map_of (receipts s) receiptId of
        Some cb \<Rightarrow> invoke cb NullValue (Some receiptId) s
      | None \<Rightarrow> (None, s))"

text \<open>\<open>disconnect()\<close>; whatever the transport's \<open>disconnect\<close> throws is caught and logged.\<close>

definition disconnect :: "client \<Rightarrow> error option \<times> client" where
  "disconnect s =
     (let s1 = s\<lparr>closed := True\<rparr>
      in case connPromise s1 of
           None \<Rightarrow> (Some InvariantViolation, s1)
         | Some p \<Rightarrow>
             (case stompClient s1 of
                Some c \<Rightarrow> (None, emit [StompDisconnect c] s1)
              | None \<Rightarrow> (None, s1)))"

section \<open>subscribe\<close>

text \<open>
  What \<open>subscribe\<close> returns: either what the callback returned, after the call with
  the error, or the pair of \<open>acknowledge\<close> and \<open>observable\<close>. Both close over the
  arguments and the new tracker, which is all the pair is here.
\<close>

record handle =
  h_subscriberId :: string
  h_entityTypesAndEvents :: jsval
  h_options :: jsval
  h_callback :: jsval
  h_tracker :: tracker

datatype subscribe_result = CallbackReturned | Handle handle

text \<open>The test \<open>!subscriberId || !Object.keys(entityTypesAndEvents).length\<close>.\<close>

definition incorrect_input :: "string \<Rightarrow> jsval \<Rightarrow> error + bool" where
  "incorrect_input sid entity_types =
     (if sid = [] then Inr True
      else (case Object_keys entity_types of
              Inl e \<Rightarrow> Inl e
            | Inr ks \<Rightarrow> Inr (length ks = 0)))"

definition subscribe ::
  "string \<Rightarrow> jsval \<Rightarrow> jsval \<Rightarrow> jsval \<Rightarrow> client \<Rightarrow> (error + subscribe_result) \<times> client" where
  "subscribe sid entity_types options0 callback0 s =
     (let callback = (if \<not> truthy callback0 then options0 else callback0);
          options = (if \<not> truthy callback0 then Undefined else options0);
          ackOrderTracker = AckOrderTracker_new
      in case incorrect_input sid entity_types of
           Inl e \<Rightarrow> (Inl e, s)
         | Inr True \<Rightarrow>
             (case invoke callback (Thrown IncorrectInputParameters) None s of
                (Some e, s1) \<Rightarrow> (Inl e, s1)
              | (None, s1) \<Rightarrow> (Inr CallbackReturned, s1))
         | Inr False \<Rightarrow>
             (Inr (Handle \<lparr> h_subscriberId = sid, h_entityTypesAndEvents = entity_types,
                            h_options = options, h_callback = callback,
                            h_tracker = ackOrderTracker \<rparr>), s))"

text \<open>
  The function given to \<open>Rx.Observable.create\<close>, run when the observable is subscribed
  to: it registers the subscription and asks for the connection.
\<close>

definition observableCreateAndSubscribe ::
  "(jsval \<Rightarrow> string) \<Rightarrow> string \<Rightarrow> handle \<Rightarrow> nat \<Rightarrow> client \<Rightarrow> client" where
  "observableCreateAndSubscribe encode uniqueId h mcb s =
     (let s1 = addSubscription encode uniqueId (h_subscriberId h) (h_entityTypesAndEvents h)
                 mcb (h_options h) (h_callback h) s
      in case connectToStompServer s1 of
           (p, s2) \<Rightarrow> then_promise p (SubscribeThen (h_subscriberId h) (h_callback h)) s2)"

text \<open>
  \<open>acknowledge(ack)\<close>: \<open>ackOrderTracker.ack(ack)\<close> is called first; then the argument
  of \<open>forEach\<close>, \<open>this.stompClient.ack.bind(this.stompClient)\<close>, is evaluated, which
  throws a TypeError when \<open>this.stompClient\<close> is \<open>null\<close>. The result is the error, if
  any, the client and the tracker.
\<close>

definition acknowledge :: "token \<Rightarrow> client \<Rightarrow> tracker \<Rightarrow> error option \<times> client \<times> tracker" where
  "acknowledge tok s tr =
     (case AckOrderTracker_ack tok tr of
        (released, tr1) \<Rightarrow>
          (case stompClient s of
             None \<Rightarrow> (Some TypeError, s, tr1)
           | Some c \<Rightarrow> (None, emit (map (StompAck c) released) s, tr1)))"

section \<open>Runs of the client\<close>

text \<open>
  What can happen to a client, one input at a time: the observable of a handle is
  subscribed to, the transport reports an event, a reconnect timer fires, a promise
  reaction that is due runs, the caller closes the client. A throw ends the input; the
  state it leaves is the state reached.
\<close>

datatype input =
    Observe string handle nat
  | SocketConnected
  | Connected nat
  | Disconnected
  | Receipt string
  | Timer
  | Job
  | Close

fun step :: "(jsval \<Rightarrow> string) \<Rightarrow> input \<Rightarrow> client \<Rightarrow> client" where
  "step encode (Observe uniqueId h mcb) s = observableCreateAndSubscribe encode uniqueId h mcb s"
| "step encode SocketConnected s = on_socketConnected s"
| "step encode (Connected p) s = on_connected p s"
| "step encode Disconnected s = on_disconnected s"
| "step encode (Receipt receiptId) s = snd (on_receipt receiptId s)"
| "step encode Timer s = on_timer s"
| "step encode Job s = snd (run_job s)"
| "step encode Close s = snd (disconnect s)"

fun run :: "(jsval \<Rightarrow> string) \<Rightarrow> input list \<Rightarrow> client \<Rightarrow> client" where
  "run encode [] s = s"
| "run encode (i # is) s = run encode is (step encode i s)"

text \<open>The delays of the timers set, and the tokens acknowledged to the transport, in order.\<close>

fun timeouts :: "effect list \<Rightarrow> nat list" where
  "timeouts [] = []"
| "timeouts (SetTimeout d # es) = d # timeouts es"
| "timeouts (e # es) = timeouts es"

fun acked :: "effect list \<Rightarrow> token list" where
  "acked [] = []"
| "acked (StompAck c t # es) = t # acked es"
| "acked (e # es) = acked es"

text \<open>The calls of the caller's completion callbacks, in order.\<close>

fun callback_calls :: "effect list \<Rightarrow> (nat \<times> reason \<times> string option) list" where
  "callback_calls [] = []"
| "callback_calls (CallbackCall f err rid # es) = (f, err, rid) # callback_calls es"
| "callback_calls (e # es) = callback_calls es"

text \<open>
  A failed attempt: the transport reports the disconnection, and the timer set by the
  handler fires and makes the next attempt.
\<close>

definition failure_round :: "client \<Rightarrow> client" where
  "failure_round s = on_timer (on_disconnected s)"

text \<open>The delay before attempt \<open>k\<close> (from 0) of a row of failed attempts.\<close>

definition backoff_delay :: "nat \<Rightarrow> nat" where
  "backoff_delay k = min (1000 * 2 ^ k) 16000"

text \<open>
  A subscriber's life at its tracker: messages arrive, the application acknowledges.
  \<open>session\<close> runs it against a client through \<open>acknowledge\<close>.
\<close>

datatype tracker_op = Arrive token | Acknowledge token

fun arrivals :: "tracker_op list \<Rightarrow> token list" where
  "arrivals [] = []"
| "arrivals (Arrive t # ops) = t # arrivals ops"
| "arrivals (Acknowledge t # ops) = arrivals ops"

fun session :: "tracker_op list \<Rightarrow> client \<times> tracker \<Rightarrow> client \<times> tracker" where
  "session [] st = st"
| "session (Arrive t # ops) (s, tr) = session ops (s, AckOrderTracker_add t tr)"
| "session (Acknowledge t # ops) (s, tr) =
     (case acknowledge t s tr of (e, s1, tr1) \<Rightarrow> session ops (s1, tr1))"

text \<open>A client with complete connection parameters, and an encoding, for concrete runs.\<close>

definition client0 :: client where
  "client0 =
     new_client (Obj [(''id'', Str ''key''), (''secret'', Str ''pass'')])
       (Str ''localhost'') (Num 61613) Undefined"

definition encode0 :: "jsval \<Rightarrow> string" where
  "encode0 v = ''destination''"

text \<open>
  The tracker on its own: the release lists of the \<open>ack\<close> calls of a subscriber's
  life, one after the other, and the queue.
\<close>

fun tracker_run :: "tracker_op list \<Rightarrow> token list \<times> tracker \<Rightarrow> token list \<times> tracker" where
  "tracker_run [] st = st"
| "tracker_run (Arrive t # ops) (rel, q) = tracker_run ops (rel, AckOrderTracker_add t q)"
| "tracker_run (Acknowledge t # ops) (rel, q) =
     (case AckOrderTracker_ack t q of (r, q1) \<Rightarrow> tracker_run ops (rel @ r, q1))"

text \<open>
  What the consumer of the observable is to see of one frame: the events of the records
  up to the first one that does not decode, then the error of that one, and nothing
  after it.
\<close>

definition decodes :: "(jsval \<Rightarrow> jsval option) \<Rightarrow> token \<Rightarrow> jsval \<Rightarrow> bool" where
  "decodes parse tok eventStr =
     (case makeEvent parse eventStr tok of Inl e \<Rightarrow> False | Inr ev \<Rightarrow> True)"

definition notification_of :: "(jsval \<Rightarrow> jsval option) \<Rightarrow> token \<Rightarrow> jsval \<Rightarrow> notification" where
  "notification_of parse tok eventStr =
     (case makeEvent parse eventStr tok of Inl e \<Rightarrow> OnError e | Inr ev \<Rightarrow> OnNext ev)"

definition stream_of :: "(jsval \<Rightarrow> jsval option) \<Rightarrow> token \<Rightarrow> jsval list \<Rightarrow> notification list" where
  "stream_of parse tok body =
     map (notification_of parse tok) (takeWhile (decodes parse tok) body)
     @ map (notification_of parse tok) (take 1 (dropWhile (decodes parse tok) body))"

text \<open>The call on the observer that follows the decoding of a record.\<close>

definition call_of :: "(jsval \<Rightarrow> jsval option) \<Rightarrow> token \<Rightarrow> jsval \<Rightarrow> call" where
  "call_of parse tok eventStr =
     (case makeEvent parse eventStr tok of Inl e \<Rightarrow> ObserverError e | Inr ev \<Rightarrow> ObserverNext ev)"

text \<open>
  Concrete states: the client while its first connection attempt is under way, the
  client after that transport was lost, and a subscriber that has seen nothing yet.
\<close>

definition client_connecting :: client where
  "client_connecting = snd (connectToStompServer client0)"

definition client_dropped :: client where
  "client_dropped = on_disconnected client_connecting"

definition event1 :: event where
  "event1 =
     \<lparr> eventId = Str ''e1'', eventType = Str ''T'', entityId = Undefined,
       swimlane = Undefined, eventData = Num 1, eventToken = Undefined, ack = ''tok'' \<rparr>"

definition subscriber0 :: subscriber where
  "subscriber0 =
     \<lparr> tracker = AckOrderTracker_new,
       observer = \<lparr>isStopped = False, emitted = []\<rparr>,
       calls = [] \<rparr>"

text \<open>
  A handle as \<open>subscribe\<close> returns it, and more concrete states: the client closed
  while connected, before the transport has reported the disconnection; the client
  after its one subscription was registered, sent and confirmed by a receipt; and that
  client after the transport was lost and the caller then closed it.
\<close>

definition handle0 :: handle where
  "handle0 =
     \<lparr> h_subscriberId = ''sub1'',
       h_entityTypesAndEvents = Obj [(''EntityA'', Arr [Str ''Created''])],
       h_options = Undefined, h_callback = Fun 7, h_tracker = AckOrderTracker_new \<rparr>"

definition headers0 :: headers where
  "headers0 =
     \<lparr> subscription_id = ''subscription-id-u1'', receipt = ''receipt-id-u1'',
       destination = ''destination'' \<rparr>"

definition client_closed :: client where
  "client_closed = snd (disconnect (on_connected 0 client_connecting))"

definition client_confirmed :: client where
  "client_confirmed =
     run encode0 [Observe ''u1'' handle0 0, Connected 0, Job, Receipt ''receipt-id-u1''] client0"

definition client_closed_waiting :: client where
  "client_closed_waiting = run encode0 [Disconnected, Close] client_confirmed"

section \<open>The encryption codec\<close>

text \<open>
  Modelled from the spec: the module \<open>./Encryption\<close> that \<open>test/Encryption-spec.js\<close>
  exercises is not among the sources. Keys, initialization vectors, plaintexts and
  ciphertexts are sequences of bytes; a plaintext is taken as its bytes.
\<close>

type_synonym byte = "8 word"

text \<open>
  Modelled from the spec: the conditions with which the missing encryption codec fails.
\<close>

datatype codec_error = KeyNotFound | FormatError | CipherError

text \<open>
  Modelled from the spec: the digits of the encoded ciphertext of the missing codec (the
  envelopes of the test are in hexadecimal).
\<close>

definition hex_digits :: string where
  "hex_digits = ''0123456789abcdef''"

text \<open>
  Modelled from the spec: one digit of the encoded ciphertext of the missing codec.
\<close>

definition hex_digit :: "nat \<Rightarrow> char" where
  "hex_digit d = hex_digits ! (d mod 16)"

text \<open>
  Modelled from the spec: the value of a digit of the encoded ciphertext of the missing
  codec; \<open>None\<close> for any other character.
\<close>

definition hex_value :: "char \<Rightarrow> nat option" where
  "hex_value c = map_of (zip hex_digits [0..<16]) c"

text \<open>
  Modelled from the spec: the encoding of the ciphertext that the missing \<open>cipher\<close>
  produces, two digits for a byte.
\<close>

definition hex_encode :: "byte list \<Rightarrow> string" where
  "hex_encode ws = concat (map (\<lambda>w. [hex_digit (unat w div 16), hex_digit (unat w mod 16)]) ws)"

text \<open>
  Modelled from the spec: the decoding of the ciphertext that the missing \<open>decipher\<close>
  consumes; \<open>None\<close> for an odd length or a character that is no digit.
\<close>

fun hex_decode :: "string \<Rightarrow> byte list option" where
  "hex_decode [] = Some []"
| "hex_decode [c] = None"
| "hex_decode (a # b # cs) =
     (case (hex_value a, hex_value b, hex_decode cs) of
        (Some h, Some l, Some ws) \<Rightarrow> Some (of_nat (16 * h + l) # ws)
      | _ \<Rightarrow> None)"

text \<open>
  Modelled from the spec: the standard block padding of the missing \<open>cipher\<close>: between
  one byte and a whole block of bytes, each of them the number of bytes added.
\<close>

definition pad :: "nat \<Rightarrow> byte list \<Rightarrow> byte list" where
  "pad n bs = (let p = n - length bs mod n in bs @ replicate p (of_nat p))"

text \<open>
  Modelled from the spec: the removal of the standard block padding in the missing
  \<open>decipher\<close>; a last byte that is no padding length, or padding bytes that differ from
  it, is a CipherError.
\<close>

definition unpad :: "nat \<Rightarrow> byte list \<Rightarrow> codec_error + byte list" where
  "unpad n bs =
     (if bs = [] then Inl CipherError
      else
        let p = unat (last bs) in
        if p = 0 \<or> n < p \<or> length bs < p then Inl CipherError
        else if drop (length bs - p) bs \<noteq> replicate p (last bs) then Inl CipherError
        else Inr (take (length bs - p) bs))"

text \<open>
  Modelled from the spec: the blocks of a byte sequence, for the block cipher of the
  missing codec.
\<close>

function chunks :: "nat \<Rightarrow> 'a list \<Rightarrow> 'a list list" where
  "chunks n xs = (if n = 0 \<or> xs = [] then [] else take n xs # chunks n (drop n xs))"
  by pat_completeness auto
termination
  by (relation "measure (\<lambda>(n, xs). length xs)") auto

declare chunks.simps [simp del]

text \<open>
  Modelled from the spec: the bytewise exclusive or of two blocks, of the CBC mode of the
  missing codec.
\<close>

definition xor_block :: "byte list \<Rightarrow> byte list \<Rightarrow> byte list" where
  "xor_block a b = map2 (XOR) a b"

text \<open>
  Modelled from the spec: CBC mode of the missing \<open>cipher\<close>: a block is combined with
  the ciphertext block before it (the initialization vector for the first) and then
  encrypted.
\<close>

fun cbc_encrypt :: "(byte list \<Rightarrow> byte list) \<Rightarrow> byte list \<Rightarrow> byte list list \<Rightarrow> byte list list" where
  "cbc_encrypt E prev [] = []"
| "cbc_encrypt E prev (b # bs) = (let c = E (xor_block b prev) in c # cbc_encrypt E c bs)"

text \<open>
  Modelled from the spec: CBC mode of the missing \<open>decipher\<close>: a block is decrypted and
  then combined with the ciphertext block before it.
\<close>

fun cbc_decrypt :: "(byte list \<Rightarrow> byte list) \<Rightarrow> byte list \<Rightarrow> byte list list \<Rightarrow> byte list list" where
  "cbc_decrypt D prev [] = []"
| "cbc_decrypt D prev (c # cs) = xor_block (D c) prev # cbc_decrypt D c cs"

text \<open>
  Modelled from the spec: the symmetric block cipher of the missing codec, which the spec
  does not name: its block length, how a secret and an initialization vector are read
  from their encoded strings (\<open>None\<close> when invalid), and its two directions on one
  block under a key.
\<close>

record block_cipher =
  block_length :: nat
  key_of :: "string \<Rightarrow> byte list option"
  iv_of :: "string \<Rightarrow> byte list option"
  encrypt_block :: "byte list \<Rightarrow> byte list \<Rightarrow> byte list"
  decrypt_block :: "byte list \<Rightarrow> byte list \<Rightarrow> byte list"

text \<open>
  Modelled from the spec: what makes the parameters above a block cipher for the missing
  codec: blocks of one to 255 bytes, and under every valid key decryption of a
  block undoes encryption, which keeps the block length.
\<close>

definition block_cipher_ok :: "block_cipher \<Rightarrow> bool" where
  "block_cipher_ok bc \<longleftrightarrow>
     0 < block_length bc \<and> block_length bc < 256
     \<and> (\<forall>secret k b. key_of bc secret = Some k \<and> length b = block_length bc \<longrightarrow>
           length (encrypt_block bc k b) = block_length bc
           \<and> decrypt_block bc k (encrypt_block bc k b) = b)"

text \<open>
  Modelled from the spec: \<open>cipher(secret, iv, plaintext)\<close> of the missing codec; an
  invalid key or initialization vector is a CipherError.
\<close>

definition cipher :: "block_cipher \<Rightarrow> string \<Rightarrow> string \<Rightarrow> byte list \<Rightarrow> codec_error + string" where
  "cipher bc secret iv plaintext =
     (case key_of bc secret of
        None \<Rightarrow> Inl CipherError
      | Some k \<Rightarrow>
          (case iv_of bc iv of
             None \<Rightarrow> Inl CipherError
           | Some v \<Rightarrow>
               if length v \<noteq> block_length bc then Inl CipherError
               else Inr (hex_encode (concat (cbc_encrypt (encrypt_block bc k) v
                           (chunks (block_length bc) (pad (block_length bc) plaintext)))))))"

text \<open>
  Modelled from the spec: \<open>decipher(secret, iv, ciphertext)\<close> of the missing codec.
\<close>

definition decipher :: "block_cipher \<Rightarrow> string \<Rightarrow> string \<Rightarrow> string \<Rightarrow> codec_error + byte list" where
  "decipher bc secret iv ciphertext =
     (case key_of bc secret of
        None \<Rightarrow> Inl CipherError
      | Some k \<Rightarrow>
          (case iv_of bc iv of
             None \<Rightarrow> Inl CipherError
           | Some v \<Rightarrow>
               if length v \<noteq> block_length bc then Inl CipherError
               else
                 (case hex_decode ciphertext of
                    None \<Rightarrow> Inl CipherError
                  | Some bytes \<Rightarrow>
                      if bytes = [] \<or> \<not> block_length bc dvd length bytes then Inl CipherError
                      else unpad (block_length bc)
                             (concat (cbc_decrypt (decrypt_block bc k) v
                                (chunks (block_length bc) bytes))))))"

text \<open>
  Modelled from the spec: the fields of the encryption envelope of the missing codec.
\<close>

record envelope =
  encryptionKeyId :: string
  data :: string
  salt :: "string option"

text \<open>
  Modelled from the spec: the prefix marker of the missing codec, as the test has it.
\<close>

definition prefixMarker :: string where
  "prefixMarker = ''__ENCRYPTED__''"

text \<open>
  Modelled from the spec: \<open>isEncrypted(value)\<close> of the missing codec.
\<close>

definition isEncrypted :: "string \<Rightarrow> bool" where
  "isEncrypted v = (take (length prefixMarker) v = prefixMarker)"

text \<open>
  Modelled from the spec: \<open>findKey(keyId)\<close> of the missing codec, with the key store as a
  partial function.
\<close>

definition findKey :: "(string \<Rightarrow> string option) \<Rightarrow> string \<Rightarrow> codec_error + string" where
  "findKey store keyId = (case store keyId of None \<Rightarrow> Inl KeyNotFound | Some secret \<Rightarrow> Inr secret)"

text \<open>
  Modelled from the spec: \<open>encrypt(keyId, plaintext)\<close> of the missing codec. The fresh
  salt is an argument, and \<open>to_json\<close> is \<open>JSON.stringify\<close> on envelopes.
\<close>

definition encrypt ::
  "block_cipher \<Rightarrow> (string \<Rightarrow> string option) \<Rightarrow> (envelope \<Rightarrow> string) \<Rightarrow> string \<Rightarrow> string \<Rightarrow> byte list
     \<Rightarrow> codec_error + string" where
  "encrypt bc store to_json fresh_salt keyId plaintext =
     (case findKey store keyId of
        Inl e \<Rightarrow> Inl e
      | Inr secret \<Rightarrow>
          (case cipher bc secret fresh_salt plaintext of
             Inl e \<Rightarrow> Inl e
           | Inr ct \<Rightarrow>
               Inr (prefixMarker
                    @ to_json \<lparr>encryptionKeyId = keyId, data = ct, salt = Some fresh_salt\<rparr>)))"

text \<open>
  Modelled from the spec: \<open>decrypt(envelopeText)\<close> of the missing codec. \<open>from_json\<close> is
  \<open>JSON.parse\<close> into an envelope (\<open>None\<close> where it fails), \<open>legacy_iv\<close> the fixed
  initialization vector of envelopes without salt.
\<close>

definition decrypt ::
  "block_cipher \<Rightarrow> (string \<Rightarrow> string option) \<Rightarrow> (string \<Rightarrow> envelope option) \<Rightarrow> string \<Rightarrow> string
     \<Rightarrow> codec_error + byte list" where
  "decrypt bc store from_json legacy_iv envelopeText =
     (if \<not> isEncrypted envelopeText then Inl FormatError
      else
        (case from_json (drop (length prefixMarker) envelopeText) of
           None \<Rightarrow> Inl FormatError
         | Some env \<Rightarrow>
             (case findKey store (encryptionKeyId env) of
                Inl e \<Rightarrow> Inl e
              | Inr secret \<Rightarrow>
                  decipher bc secret (case salt env of Some iv \<Rightarrow> iv | None \<Rightarrow> legacy_iv)
                    (data env))))"

text \<open>
  Modelled from the spec: a small cipher to run the missing codec on: blocks of two
  bytes, secrets and initialization vectors in hexadecimal, a block encrypted by
  exclusive or with the key.
\<close>

definition toy_key :: "string \<Rightarrow> byte list option" where
  "toy_key secret =
     (case hex_decode secret of None \<Rightarrow> None | Some k \<Rightarrow> if length k = 2 then Some k else None)"

text \<open>
  Modelled from the spec: the small cipher, for the missing codec.
\<close>

definition toy_cipher :: block_cipher where
  "toy_cipher =
     \<lparr> block_length = 2, key_of = toy_key, iv_of = hex_decode,
       encrypt_block = (\<lambda>k b. xor_block b k), decrypt_block = (\<lambda>k b. xor_block b k) \<rparr>"

text \<open>
  Modelled from the spec: the envelope of the missing codec for one run of the small
  cipher.
\<close>

definition envelope0 :: envelope where
  "envelope0 = \<lparr>encryptionKeyId = ''keyId'', data = ''4307'', salt = Some ''0304''\<rparr>"

text \<open>
  Modelled from the spec: the JSON text of an envelope of the missing codec whose fields
  need no escaping.
\<close>

definition sample_to_json :: "envelope \<Rightarrow> string" where
  "sample_to_json env =
     ''{\"encryptionKeyId\":\"'' @ encryptionKeyId env @ ''\",\"data\":\"'' @ data env
     @ (case salt env of None \<Rightarrow> [] | Some s \<Rightarrow> ''\",\"salt\":\"'' @ s) @ ''\"}''"

text \<open>
  Modelled from the spec: the point of \<open>JSON.parse\<close> at the JSON text of \<open>envelope0\<close>,
  for the missing codec.
\<close>

definition sample_from_json :: "string \<Rightarrow> envelope option" where
  "sample_from_json s =
     (if s = ''{\"encryptionKeyId\":\"keyId\",\"data\":\"4307\",\"salt\":\"0304\"}''
      then Some envelope0 else None)"

text \<open>
  Modelled from the spec: a key store with one key, for the missing codec.
\<close>

definition sample_store :: "string \<Rightarrow> string option" where
  "sample_store keyId = (if keyId = ''keyId'' then Some ''0102'' else None)"

section \<open>Properties\<close>

subsection \<open>Reconnection delays\<close>

lemma timeouts_append: "timeouts (xs @ ys) = timeouts xs @ timeouts ys"
  by (induction xs rule: timeouts.induct) simp_all

lemma connectToStompServer_keeps:
  "closed (snd (connectToStompServer s)) = closed s"
  "reconnectInterval (snd (connectToStompServer s)) = reconnectInterval s"
  "reconnectIntervalStart (snd (connectToStompServer s)) = reconnectIntervalStart s"
  "timeouts (effects (snd (connectToStompServer s))) = timeouts (effects s)"
  by (simp_all add: connectToStompServer_def new_promise_def emit_def timeouts_append Let_def
        split: option.splits)

lemma then_promise_keeps:
  "closed (then_promise p r s) = closed s"
  "reconnectInterval (then_promise p r s) = reconnectInterval s"
  "reconnectIntervalStart (then_promise p r s) = reconnectIntervalStart s"
  "effects (then_promise p r s) = effects s"
  by (simp_all add: then_promise_def split: option.splits)

lemma on_timer_keeps:
  "closed (on_timer s) = closed s"
  "reconnectInterval (on_timer s) = reconnectInterval s"
  "reconnectIntervalStart (on_timer s) = reconnectIntervalStart s"
  "timeouts (effects (on_timer s)) = timeouts (effects s)"
  using connectToStompServer_keeps [of s]
  by (cases "connectToStompServer s"; simp add: on_timer_def then_promise_keeps)+

text \<open>One failed attempt of an open client: the interval is doubled first, then used.\<close>

lemma failure_round_open:
  assumes "\<not> closed s"
  shows "\<not> closed (failure_round s)"
    and "reconnectIntervalStart (failure_round s) = reconnectIntervalStart s"
    and "reconnectInterval (failure_round s) =
           (if reconnectInterval s < 16000 then reconnectInterval s * 2 else reconnectInterval s)"
    and "timeouts (effects (failure_round s)) =
           timeouts (effects s) @
             [if reconnectInterval s < 16000 then reconnectInterval s * 2 else reconnectInterval s]"
  using assms
  by (simp_all add: failure_round_def on_timer_keeps on_disconnected_def
        reconnectStompServer_def emit_def timeouts_append Let_def)

lemma backoff_step:
  "(if min (500 * 2 ^ k) 16000 < (16000::nat)
    then min (500 * 2 ^ k) 16000 * 2 else min (500 * 2 ^ k) (16000::nat))
   = min (500 * 2 ^ Suc k) (16000::nat)"
proof (cases "k < 5")
  case True
  then have "(2::nat) ^ k \<le> 2 ^ 4" by (intro power_increasing) auto
  then show ?thesis by auto
next
  case False
  then have "(2::nat) ^ 5 \<le> 2 ^ k" by (intro power_increasing) auto
  then show ?thesis by auto
qed

lemma failure_rounds:
  assumes "\<not> closed s" "reconnectInterval s = 500"
  shows "\<not> closed ((failure_round ^^ n) s)
       \<and> reconnectIntervalStart ((failure_round ^^ n) s) = reconnectIntervalStart s
       \<and> reconnectInterval ((failure_round ^^ n) s) = min (500 * 2 ^ n) 16000
       \<and> timeouts (effects ((failure_round ^^ n) s))
           = timeouts (effects s) @ map backoff_delay [0..<n]"
proof (induction n)
  case 0
  show ?case using assms by simp
next
  case (Suc n)
  let ?t = "(failure_round ^^ n) s"
  from Suc have o: "\<not> closed ?t"
    and i: "reconnectInterval ?t = min (500 * 2 ^ n) 16000"
    and t: "timeouts (effects ?t) = timeouts (effects s) @ map backoff_delay [0..<n]"
    and st: "reconnectIntervalStart ?t = reconnectIntervalStart s"
    by auto
  have d: "(if reconnectInterval ?t < 16000 then reconnectInterval ?t * 2
            else reconnectInterval ?t) = min (500 * 2 ^ Suc n) 16000"
    unfolding i by (rule backoff_step)
  have e: "min (500 * 2 ^ Suc n) 16000 = backoff_delay n"
    by (simp add: backoff_delay_def)
  have "timeouts (effects (failure_round ?t)) = timeouts (effects ?t) @ [backoff_delay n]"
    using failure_round_open(4) [OF o] d e by simp
  moreover have "reconnectInterval (failure_round ?t) = min (500 * 2 ^ Suc n) 16000"
    using failure_round_open(3) [OF o] d by simp
  ultimately show ?case
    using failure_round_open(1,2) [OF o] t st by simp
qed

lemma backoff_delay_values:
  "map backoff_delay [0..<7] = [1000, 2000, 4000, 8000, 16000, 16000, 16000]"
  by (simp add: backoff_delay_def upt_rec)

text \<open>
  C1, as the code has it. The handler of \<open>disconnected\<close> doubles the interval (while it
  is below 16000) before it sets the timer with it. So after a socket was established,
  or on a new client, the delays of a row of failed attempts of a client that is not
  closed are 1000, 2000, 4000, 8000, 16000, 16000, ... ms (delay \<open>k\<close> is
  \<open>min (1000 * 2 ^ k) 16000\<close>), and \<open>socketConnected\<close> puts the interval back to 500.
\<close>

theorem reconnect_delays_double_before_use:
  assumes "\<not> closed s" and "reconnectIntervalStart s = 500"
  shows "timeouts (effects ((failure_round ^^ n) (on_socketConnected s)))
           = timeouts (effects s) @ map backoff_delay [0..<n]
       \<and> reconnectInterval (on_socketConnected ((failure_round ^^ n) (on_socketConnected s))) = 500
       \<and> timeouts (effects ((failure_round ^^ n) (new_client k h p sp)))
           = map backoff_delay [0..<n]"
proof -
  have a: "\<not> closed (on_socketConnected s)" "reconnectInterval (on_socketConnected s) = 500"
    "reconnectIntervalStart (on_socketConnected s) = 500"
    "effects (on_socketConnected s) = effects s"
    using assms by (simp_all add: on_socketConnected_def)
  have b: "\<not> closed (new_client k h p sp)" "reconnectInterval (new_client k h p sp) = 500"
    "effects (new_client k h p sp) = []"
    by (simp_all add: new_client_def)
  show ?thesis
    using failure_rounds [OF a(1,2), of n] failure_rounds [OF b(1,2), of n] a(3,4) b(3)
    by (simp add: on_socketConnected_def)
qed

theorem reconnect_delays_double_before_use_witness:
  "\<not> closed client0 \<and> reconnectIntervalStart client0 = 500
   \<and> timeouts (effects ((failure_round ^^ 7) (on_socketConnected client0)))
       = [1000, 2000, 4000, 8000, 16000, 16000, 16000]"
proof -
  have h: "\<not> closed client0" "reconnectIntervalStart client0 = 500" "effects client0 = []"
    by (simp_all add: client0_def new_client_def)
  show ?thesis
    using h reconnect_delays_double_before_use [OF h(1,2), of 7] backoff_delay_values by simp
qed

text \<open>
  The first delay after a socket was established is 1000 ms, not 500 ms: seven failed
  attempts in a row do not wait 500, 1000, 2000, 4000, 8000, 16000, 16000 ms.
\<close>

theorem reconnect_delays_counterexample:
  "timeouts (effects ((failure_round ^^ 7) (on_socketConnected client0)))
     \<noteq> [500, 1000, 2000, 4000, 8000, 16000, 16000]"
proof -
  have a: "\<not> closed (on_socketConnected client0)"
    "reconnectInterval (on_socketConnected client0) = 500"
    "effects (on_socketConnected client0) = []"
    by (simp_all add: on_socketConnected_def client0_def new_client_def)
  show ?thesis
    using failure_rounds [OF a(1,2), of 7] a(3) backoff_delay_values by simp
qed

subsection \<open>Acknowledgement\<close>

lemma acked_append: "acked (xs @ ys) = acked xs @ acked ys"
  by (induction xs rule: acked.induct) simp_all

lemma acked_StompAck: "acked (map (StompAck c) ts) = ts"
  by (induction ts) simp_all

lemma mark_completed_tokens: "map fst (mark_completed t q) = map fst q"
  by (induction t q rule: mark_completed.induct) simp_all

text \<open>A release list and the queue left after it make up the queue before it.\<close>

lemma ack_partition:
  "fst (AckOrderTracker_ack t q) @ map fst (snd (AckOrderTracker_ack t q)) = map fst q"
proof -
  have "map fst (takeWhile snd (mark_completed t q))
          @ map fst (dropWhile snd (mark_completed t q))
        = map fst (mark_completed t q)"
    by (simp flip: map_append)
  then show ?thesis
    by (simp add: AckOrderTracker_ack_def Let_def mark_completed_tokens)
qed

lemma tracker_run_order:
  "fst (tracker_run ops (rel, q)) @ map fst (snd (tracker_run ops (rel, q)))
     = rel @ map fst q @ arrivals ops"
proof (induction ops arbitrary: rel q)
  case Nil
  show ?case by simp
next
  case (Cons a ops)
  show ?case
  proof (cases a)
    case (Arrive t)
    then show ?thesis
      using Cons [of rel "AckOrderTracker_add t q"] by (simp add: AckOrderTracker_add_def)
  next
    case (Acknowledge t)
    obtain r q1 where a: "AckOrderTracker_ack t q = (r, q1)"
      by (cases "AckOrderTracker_ack t q")
    have "r @ map fst q1 = map fst q"
      using ack_partition [of t q] a by simp
    then have "(rel @ r) @ map fst q1 @ arrivals ops = rel @ map fst q @ arrivals ops"
      by (metis append.assoc)
    then show ?thesis
      using Acknowledge a Cons [of "rel @ r" q1] by simp
  qed
qed

lemma acknowledge_connected:
  "stompClient s = Some c \<Longrightarrow>
   acknowledge tok s tr
     = (None, emit (map (StompAck c) (fst (AckOrderTracker_ack tok tr))) s,
        snd (AckOrderTracker_ack tok tr))"
  by (simp add: acknowledge_def split: prod.splits)

text \<open>With a transport at hand, the transport is told what the tracker releases.\<close>

lemma session_tracker_run:
  "stompClient s = Some c \<Longrightarrow> acked (effects s) = rel \<Longrightarrow>
   acked (effects (fst (session ops (s, tr)))) = fst (tracker_run ops (rel, tr))
   \<and> snd (session ops (s, tr)) = snd (tracker_run ops (rel, tr))"
proof (induction ops arbitrary: s tr rel)
  case Nil
  then show ?case by simp
next
  case (Cons a ops)
  show ?case
  proof (cases a)
    case (Arrive t)
    then show ?thesis using Cons.IH [OF Cons.prems] by simp
  next
    case (Acknowledge t)
    obtain r q1 where a: "AckOrderTracker_ack t tr = (r, q1)"
      by (cases "AckOrderTracker_ack t tr")
    let ?s1 = "emit (map (StompAck c) r) s"
    have b: "acknowledge t s tr = (None, ?s1, q1)"
      using acknowledge_connected [OF Cons.prems(1), of t tr] a by simp
    have c: "stompClient ?s1 = Some c"
      using Cons.prems(1) by (simp add: emit_def)
    have d: "acked (effects ?s1) = rel @ r"
      using Cons.prems(2) by (simp add: emit_def acked_append acked_StompAck)
    show ?thesis
      using Acknowledge a b Cons.IH [OF c d, of q1] by simp
  qed
qed

lemma tracker_example:
  "distinct [t1, t2, t3] \<Longrightarrow>
   AckOrderTracker_ack t2
     (AckOrderTracker_add t3 (AckOrderTracker_add t2 (AckOrderTracker_add t1 AckOrderTracker_new)))
     = ([], [(t1, False), (t2, True), (t3, False)])
   \<and> AckOrderTracker_ack t1 [(t1, False), (t2, True), (t3, False)] = ([t1, t2], [(t3, False)])
   \<and> AckOrderTracker_ack t3 [(t3, False)] = ([t3], [])"
  by (auto simp add: AckOrderTracker_ack_def AckOrderTracker_add_def AckOrderTracker_new_def)

lemma client_connecting_stompClient: "stompClient client_connecting = Some 0"
  by (simp add: client_connecting_def connectToStompServer_def client0_def new_client_def
        new_promise_def emit_def)

lemma client_dropped_stompClient: "stompClient client_dropped = None"
  by (simp add: client_dropped_def on_disconnected_def reconnectStompServer_def emit_def Let_def)

text \<open>
  C2, as the code has it. The tracker releases tokens in arrival order only: over any
  life of a subscriber, the release lists one after the other, followed by the tokens
  still queued, are the tokens in the order they arrived. While the client holds a
  transport, \<open>acknowledge(token)\<close> passes the release list of \<open>ack(token)\<close> to the
  transport's \<open>ack\<close>, token by token in the order returned, so what the transport has
  been told followed by what is queued is the arrivals in order. For three different
  tokens, \<open>add(t1); add(t2); add(t3); ack(t2)\<close> returns \<open>[]\<close>, then \<open>ack(t1)\<close> returns
  \<open>[t1, t2]\<close>, then \<open>ack(t3)\<close> returns \<open>[t3]\<close>.
\<close>

theorem acknowledge_in_arrival_order:
  assumes "stompClient s = Some c" and "distinct [t1, t2, t3]"
  shows "fst (tracker_run ops ([], AckOrderTracker_new))
           @ map fst (snd (tracker_run ops ([], AckOrderTracker_new))) = arrivals ops
       \<and> acknowledge tok s tr
           = (None, emit (map (StompAck c) (fst (AckOrderTracker_ack tok tr))) s,
              snd (AckOrderTracker_ack tok tr))
       \<and> acked (effects (fst (session ops (s, AckOrderTracker_new))))
           @ map fst (snd (session ops (s, AckOrderTracker_new)))
           = acked (effects s) @ arrivals ops
       \<and> AckOrderTracker_ack t2
           (AckOrderTracker_add t3
             (AckOrderTracker_add t2 (AckOrderTracker_add t1 AckOrderTracker_new)))
           = ([], [(t1, False), (t2, True), (t3, False)])
       \<and> AckOrderTracker_ack t1 [(t1, False), (t2, True), (t3, False)]
           = ([t1, t2], [(t3, False)])
       \<and> AckOrderTracker_ack t3 [(t3, False)] = ([t3], [])"
proof -
  have a: "fst (tracker_run ops ([], AckOrderTracker_new))
             @ map fst (snd (tracker_run ops ([], AckOrderTracker_new))) = arrivals ops"
    using tracker_run_order [of ops "[]" AckOrderTracker_new]
    by (simp add: AckOrderTracker_new_def)
  have b: "acked (effects (fst (session ops (s, AckOrderTracker_new))))
             @ map fst (snd (session ops (s, AckOrderTracker_new)))
           = acked (effects s) @ arrivals ops"
    using session_tracker_run [OF assms(1) refl, of ops AckOrderTracker_new]
      tracker_run_order [of ops "acked (effects s)" AckOrderTracker_new]
    by (simp add: AckOrderTracker_new_def)
  show ?thesis
    using a b acknowledge_connected [OF assms(1)] tracker_example [OF assms(2)] by simp
qed

theorem acknowledge_in_arrival_order_witness:
  "stompClient client_connecting = Some 0 \<and> distinct [''t1'', ''t2'', ''t3'']
   \<and> acknowledge ''t1'' client_connecting [(''t1'', False), (''t2'', True), (''t3'', False)]
       = (None, emit [StompAck 0 ''t1'', StompAck 0 ''t2''] client_connecting,
          [(''t3'', False)])"
proof -
  have d: "distinct [''t1'', ''t2'', ''t3'']" by simp
  show ?thesis
    using client_connecting_stompClient d
      acknowledge_in_arrival_order [OF client_connecting_stompClient d,
        of "[]" "''t1''" "[(''t1'', False), (''t2'', True), (''t3'', False)]"]
    by simp
qed

text \<open>
  After the transport was lost the client holds none: \<open>acknowledge\<close> of the one token
  that has arrived takes it out of the tracker and throws; the token is passed to no
  transport.
\<close>

theorem acknowledge_not_forwarded_counterexample:
  "fst (AckOrderTracker_ack ''t1'' (AckOrderTracker_add ''t1'' AckOrderTracker_new)) = [''t1'']
   \<and> acknowledge ''t1'' client_dropped (AckOrderTracker_add ''t1'' AckOrderTracker_new)
       = (Some TypeError, client_dropped, [])"
  using client_dropped_stompClient
  by (simp add: acknowledge_def AckOrderTracker_ack_def AckOrderTracker_add_def
        AckOrderTracker_new_def)

text \<open>
  C10. While the client holds no transport, \<open>acknowledge\<close> throws a TypeError for every
  token and every state of the tracker, also when the release list is empty, and the
  client is as before: nothing is kept for later. The client holds no transport when
  it is new and after each \<open>disconnected\<close>.
\<close>

theorem acknowledge_without_transport_throws:
  "(stompClient s = None \<longrightarrow>
      fst (acknowledge tok s tr) = Some TypeError \<and> fst (snd (acknowledge tok s tr)) = s)
   \<and> stompClient (new_client k h p sp) = None
   \<and> stompClient (on_disconnected s) = None"
  by (simp add: acknowledge_def new_client_def on_disconnected_def reconnectStompServer_def
        emit_def Let_def split: prod.splits)

theorem acknowledge_without_transport_throws_witness:
  "stompClient client0 = None
   \<and> fst (AckOrderTracker_ack ''t1'' AckOrderTracker_new) = []
   \<and> fst (acknowledge ''t1'' client0 AckOrderTracker_new) = Some TypeError
   \<and> fst (snd (acknowledge ''t1'' client0 AckOrderTracker_new)) = client0"
proof -
  have h: "stompClient client0 = None"
    by (simp add: client0_def new_client_def)
  have e: "fst (AckOrderTracker_ack ''t1'' AckOrderTracker_new) = []"
    by (simp add: AckOrderTracker_ack_def AckOrderTracker_new_def)
  show ?thesis
    using h e acknowledge_without_transport_throws [of client0 "''t1''" AckOrderTracker_new]
    by simp
qed

subsection \<open>Delivery of a frame\<close>

lemma forEach_body_stopped:
  "isStopped (observer sb) \<Longrightarrow> observer (forEach_body parse tok body sb) = observer sb"
  by (induction body arbitrary: sb)
     (simp_all add: deliver_def onNext_def onError_def split: sum.splits)

lemma forEach_body_tracker:
  "tracker (forEach_body parse tok body sb) = tracker sb"
  by (induction body arbitrary: sb) (simp_all add: deliver_def split: sum.splits)

lemma forEach_body_calls:
  "calls (forEach_body parse tok body sb)
     = calls sb @ concat (map (\<lambda>r. [MakeEvent r, call_of parse tok r]) body)"
  by (induction body arbitrary: sb) (simp_all add: deliver_def call_of_def split: sum.splits)

lemma forEach_body_stream:
  "\<not> isStopped (observer sb) \<Longrightarrow>
   emitted (observer (forEach_body parse tok body sb))
     = emitted (observer sb) @ stream_of parse tok body
   \<and> isStopped (observer (forEach_body parse tok body sb))
     = (\<exists>r \<in> set body. \<not> decodes parse tok r)"
proof (induction body arbitrary: sb)
  case Nil
  then show ?case by (simp add: stream_of_def)
next
  case (Cons r rs)
  let ?sb = "deliver parse tok r sb"
  show ?case
  proof (cases "makeEvent parse r tok")
    case (Inl e)
    have st: "isStopped (observer ?sb)"
      and em: "emitted (observer ?sb) = emitted (observer sb) @ [OnError e]"
      using Cons.prems Inl by (simp_all add: deliver_def onError_def)
    have "observer (forEach_body parse tok rs ?sb) = observer ?sb"
      by (rule forEach_body_stopped [OF st])
    then show ?thesis
      using st em Inl by (simp add: stream_of_def decodes_def notification_of_def)
  next
    case (Inr ev)
    have st: "\<not> isStopped (observer ?sb)"
      and em: "emitted (observer ?sb) = emitted (observer sb) @ [OnNext ev]"
      using Cons.prems Inr by (simp_all add: deliver_def onNext_def)
    show ?thesis
      using Cons.IH [OF st] em Inr by (simp add: stream_of_def decodes_def notification_of_def)
  qed
qed

lemma makeEvent_ack: "makeEvent parse r tok = Inr ev \<Longrightarrow> ack ev = tok"
  by (auto simp add: makeEvent_def split: option.splits if_splits)

lemma makeEvent_cases:
  "parse eventStr = None \<Longrightarrow> makeEvent parse eventStr tok = Inl SyntaxError"
  "parse eventStr = Some parsed \<Longrightarrow> parsed = Undefined \<or> parsed = Null \<Longrightarrow>
     makeEvent parse eventStr tok = Inl TypeError"
  "parse eventStr = Some parsed \<Longrightarrow> parsed \<noteq> Undefined \<Longrightarrow> parsed \<noteq> Null \<Longrightarrow>
     parse (get_prop parsed ''eventData'') = None \<Longrightarrow>
     makeEvent parse eventStr tok = Inl SyntaxError"
  "parse eventStr = Some parsed \<Longrightarrow> parsed \<noteq> Undefined \<Longrightarrow> parsed \<noteq> Null \<Longrightarrow>
     parse (get_prop parsed ''eventData'') = Some parsedData \<Longrightarrow>
     makeEvent parse eventStr tok
       = Inr \<lparr> eventId = get_prop parsed ''id'',
               eventType = get_prop parsed ''eventType'',
               entityId = get_prop parsed ''entityId'',
               swimlane = get_prop parsed ''swimlane'',
               eventData = parsedData,
               eventToken = get_prop parsed ''eventToken'',
               ack = tok \<rparr>"
  by (cases parsed; auto simp add: makeEvent_def)+

text \<open>
  C7. The message callback first registers the frame's token with the tracker, then
  decodes every record of the body in order, each decoding followed by the call on the
  observer. The consumer of the observable sees the events of the records up to the
  first one that does not decode, then the error of that record, after which the
  observable has ended: it passes on nothing more, of this frame or a later one. Every
  event decoded carries the frame's token. A record does not decode when \<open>JSON.parse\<close>
  throws on it (a SyntaxError), when it parses to \<open>null\<close> (a TypeError), or when
  \<open>JSON.parse\<close> throws on its \<open>eventData\<close> (a SyntaxError); otherwise the event has the
  parsed \<open>eventData\<close>, the record's \<open>id\<close> as its event id, and the record's
  \<open>eventType\<close>, \<open>entityId\<close>, \<open>swimlane\<close> and \<open>eventToken\<close>.
\<close>

theorem messageCallback_delivery:
  "tracker (messageCallback parse body tok sb) = tracker sb @ [(tok, False)]
   \<and> calls (messageCallback parse body tok sb)
       = calls sb @ TrackerAdd tok # concat (map (\<lambda>r. [MakeEvent r, call_of parse tok r]) body)
   \<and> (\<not> isStopped (observer sb) \<longrightarrow>
        emitted (observer (messageCallback parse body tok sb))
          = emitted (observer sb) @ stream_of parse tok body
        \<and> isStopped (observer (messageCallback parse body tok sb))
          = (\<exists>r \<in> set body. \<not> decodes parse tok r))
   \<and> (isStopped (observer sb) \<longrightarrow>
        observer (messageCallback parse body tok sb) = observer sb)
   \<and> (\<forall>r ev. makeEvent parse r tok = Inr ev \<longrightarrow> ack ev = tok)
   \<and> (parse eventStr = None \<longrightarrow> makeEvent parse eventStr tok = Inl SyntaxError)
   \<and> (parse eventStr = Some parsed \<and> (parsed = Undefined \<or> parsed = Null) \<longrightarrow>
        makeEvent parse eventStr tok = Inl TypeError)
   \<and> (parse eventStr = Some parsed \<and> parsed \<noteq> Undefined \<and> parsed \<noteq> Null
        \<and> parse (get_prop parsed ''eventData'') = None \<longrightarrow>
        makeEvent parse eventStr tok = Inl SyntaxError)
   \<and> (parse eventStr = Some parsed \<and> parsed \<noteq> Undefined \<and> parsed \<noteq> Null
        \<and> parse (get_prop parsed ''eventData'') = Some parsedData \<longrightarrow>
        makeEvent parse eventStr tok
          = Inr \<lparr> eventId = get_prop parsed ''id'',
                  eventType = get_prop parsed ''eventType'',
                  entityId = get_prop parsed ''entityId'',
                  swimlane = get_prop parsed ''swimlane'',
                  eventData = parsedData,
                  eventToken = get_prop parsed ''eventToken'',
                  ack = tok \<rparr>)"
proof -
  have "tracker (messageCallback parse body tok sb) = tracker sb @ [(tok, False)]"
    by (simp add: messageCallback_def forEach_body_tracker AckOrderTracker_add_def)
  moreover have "calls (messageCallback parse body tok sb)
       = calls sb @ TrackerAdd tok # concat (map (\<lambda>r. [MakeEvent r, call_of parse tok r]) body)"
    by (simp add: messageCallback_def forEach_body_calls)
  moreover have "\<not> isStopped (observer sb) \<longrightarrow>
        emitted (observer (messageCallback parse body tok sb))
          = emitted (observer sb) @ stream_of parse tok body
        \<and> isStopped (observer (messageCallback parse body tok sb))
          = (\<exists>r \<in> set body. \<not> decodes parse tok r)"
    using forEach_body_stream [of _ parse tok body] by (simp add: messageCallback_def)
  moreover have "isStopped (observer sb) \<longrightarrow>
        observer (messageCallback parse body tok sb) = observer sb"
    using forEach_body_stopped [of _ parse tok body] by (simp add: messageCallback_def)
  moreover have "\<forall>r ev. makeEvent parse r tok = Inr ev \<longrightarrow> ack ev = tok"
    by (simp add: makeEvent_ack)
  ultimately show ?thesis
    using makeEvent_cases(1) [of parse eventStr tok]
      makeEvent_cases(2) [of parse eventStr parsed tok]
      makeEvent_cases(3) [of parse eventStr parsed tok]
      makeEvent_cases(4) [of parse eventStr parsed parsedData tok]
    by blast
qed

theorem messageCallback_delivery_witness:
  "\<not> isStopped (observer subscriber0)
   \<and> emitted (observer (messageCallback sample_parse [record1, Str ''{'', record2] ''tok''
                          subscriber0))
       = [OnNext event1, OnError SyntaxError]
   \<and> isStopped (observer (messageCallback sample_parse [record1, Str ''{'', record2] ''tok''
                            subscriber0))
   \<and> observer (messageCallback sample_parse [record2] ''tok2''
                 (messageCallback sample_parse [record1, Str ''{'', record2] ''tok''
                    subscriber0))
       = observer (messageCallback sample_parse [record1, Str ''{'', record2] ''tok''
                     subscriber0)
   \<and> sample_parse record1
       = Some (Obj [(''id'', Str ''e1''), (''eventType'', Str ''T''), (''eventData'', Str ''1'')])
   \<and> sample_parse (Str ''1'') = Some (Num 1)
   \<and> makeEvent sample_parse record1 ''tok'' = Inr event1
   \<and> ack event1 = ''tok''
   \<and> sample_parse (Str ''{'') = None
   \<and> makeEvent sample_parse (Str ''{'') ''tok'' = Inl SyntaxError
   \<and> sample_parse (Str ''null'') = Some Null
   \<and> makeEvent sample_parse (Str ''null'') ''tok'' = Inl TypeError
   \<and> sample_parse record3 = Some (Obj [(''id'', Str ''e3'')])
   \<and> sample_parse Undefined = None
   \<and> makeEvent sample_parse record3 ''tok'' = Inl SyntaxError"
proof -
  let ?sb1 = "messageCallback sample_parse [record1, Str ''{'', record2] ''tok'' subscriber0"
  have p: "sample_parse record1
             = Some (Obj [(''id'', Str ''e1''), (''eventType'', Str ''T''), (''eventData'', Str ''1'')])"
    "sample_parse (Str ''{'') = None"
    "sample_parse (Str ''1'') = Some (Num 1)"
    "sample_parse (Str ''null'') = Some Null"
    "sample_parse record3 = Some (Obj [(''id'', Str ''e3'')])"
    "sample_parse Undefined = None"
    by (simp_all add: sample_parse_def parse_points_def record1_def record2_def record3_def)
  have m1: "makeEvent sample_parse record1 ''tok'' = Inr event1"
    using p(1,3)
      messageCallback_delivery [of sample_parse "[]" "''tok''" subscriber0,
        where eventStr = record1
          and parsed = "Obj [(''id'', Str ''e1''), (''eventType'', Str ''T''),
                             (''eventData'', Str ''1'')]"
          and parsedData = "Num 1"]
    by (simp add: event1_def)
  have m2: "makeEvent sample_parse (Str ''{'') ''tok'' = Inl SyntaxError"
    using p(2)
      messageCallback_delivery [of sample_parse "[]" "''tok''" subscriber0,
        where eventStr = "Str ''{''"]
    by simp
  have m3: "makeEvent sample_parse (Str ''null'') ''tok'' = Inl TypeError"
    using p(4)
      messageCallback_delivery [of sample_parse "[]" "''tok''" subscriber0,
        where eventStr = "Str ''null''" and parsed = Null]
    by simp
  have m4: "makeEvent sample_parse record3 ''tok'' = Inl SyntaxError"
    using p(5,6)
      messageCallback_delivery [of sample_parse "[]" "''tok''" subscriber0,
        where eventStr = record3 and parsed = "Obj [(''id'', Str ''e3'')]"]
    by simp
  have h: "\<not> isStopped (observer subscriber0)" "emitted (observer subscriber0) = []"
    by (simp_all add: subscriber0_def)
  have s: "stream_of sample_parse ''tok'' [record1, Str ''{'', record2]
             = [OnNext event1, OnError SyntaxError]"
    by (simp add: stream_of_def decodes_def notification_of_def m1 m2)
  have d: "\<not> decodes sample_parse ''tok'' (Str ''{'')"
    by (simp add: decodes_def m2)
  have a: "emitted (observer ?sb1) = [OnNext event1, OnError SyntaxError]"
    "isStopped (observer ?sb1)"
    using h s d
      messageCallback_delivery [of sample_parse "[record1, Str ''{'', record2]" "''tok''"
        subscriber0]
    by simp_all
  have b: "observer (messageCallback sample_parse [record2] ''tok2'' ?sb1) = observer ?sb1"
    using a(2) messageCallback_delivery [of sample_parse "[record2]" "''tok2''" ?sb1] by simp
  have c: "ack event1 = ''tok''"
    using m1 messageCallback_delivery [of sample_parse "[]" "''tok''" subscriber0] by blast
  show ?thesis
    using h(1) a b p m1 m2 m3 m4 c by simp
qed

subsection \<open>Connecting\<close>

lemmas client_defs =
  client0_def new_client_def
  observableCreateAndSubscribe_def addSubscription_def addReceipt_def destinationObj_def
  connectToStompServer_def new_promise_def then_promise_def settle_def emit_def
  on_connected_def on_disconnected_def on_socketConnected_def on_receipt_def on_timer_def
  run_job_def doClientSubscribe_def invoke_def disconnect_def reconnectStompServer_def
  put_own_def subscriptions_hasOwnProperty_def for_in_keys_def is_array_index_def is_digit_def
  AckOrderTracker_new_def Let_def

lemma connect_memo: "connPromise s = Some p \<Longrightarrow> connectToStompServer s = (p, s)"
  by (simp add: connectToStompServer_def)

lemma connect_sets:
  "connPromise (snd (connectToStompServer s)) = Some (fst (connectToStompServer s))"
  by (simp add: connectToStompServer_def new_promise_def emit_def Let_def split: option.splits)

lemma connect_twice:
  "connectToStompServer (snd (connectToStompServer s)) = connectToStompServer s"
  using connect_memo [OF connect_sets [of s]] by simp

lemma connect_closed:
  "connPromise s = None \<Longrightarrow> closed s \<Longrightarrow>
   connectToStompServer s = (length (promises s), new_promise (Some (Rejected NoValue)) s)"
  by (simp add: connectToStompServer_def)

text \<open>
  C3, as the code has it. \<open>connectToStompServer\<close> is memoized: a second call returns
  the promise of the first and changes nothing, so no second transport is made; while
  a promise is memoized the call returns it, whether the client is closed or not. A
  call on a closed client with no memoized promise (the transport has reported the
  disconnection) makes no transport and returns a new promise that is rejected at
  once, with no error value, and is memoized in its turn.
\<close>

theorem connectToStompServer_memoized:
  "connectToStompServer (snd (connectToStompServer s)) = connectToStompServer s
   \<and> (connPromise s = Some p \<longrightarrow> connectToStompServer s = (p, s))
   \<and> (connPromise s = None \<and> closed s \<longrightarrow>
        fst (connectToStompServer s) = length (promises s)
        \<and> promises (snd (connectToStompServer s)) ! length (promises s)
            = \<lparr>settled = Some (Rejected NoValue), reactions = []\<rparr>
        \<and> connPromise (snd (connectToStompServer s)) = Some (length (promises s))
        \<and> effects (snd (connectToStompServer s)) = effects s
        \<and> stompClient (snd (connectToStompServer s)) = stompClient s)"
  using connect_twice [of s] connect_memo [of s p] connect_closed [of s]
  by (auto simp add: new_promise_def)

theorem connectToStompServer_memoized_witness:
  "connPromise client_connecting = Some 0
   \<and> connectToStompServer client_connecting = (0, client_connecting)
   \<and> connPromise (on_disconnected client_closed) = None
   \<and> closed (on_disconnected client_closed)
   \<and> fst (connectToStompServer (on_disconnected client_closed)) = 1
   \<and> promises (snd (connectToStompServer (on_disconnected client_closed))) ! 1
       = \<lparr>settled = Some (Rejected NoValue), reactions = []\<rparr>
   \<and> effects (snd (connectToStompServer (on_disconnected client_closed)))
       = [StompNew 0, StompConnect 0, StompDisconnect 0]"
proof -
  have a: "connPromise client_connecting = Some 0"
    by (simp add: client_connecting_def client_defs)
  have b: "connPromise (on_disconnected client_closed) = None"
    "closed (on_disconnected client_closed)"
    "length (promises (on_disconnected client_closed)) = 1"
    "effects (on_disconnected client_closed) = [StompNew 0, StompConnect 0, StompDisconnect 0]"
    by (simp_all add: client_closed_def client_connecting_def client_defs)
  show ?thesis
    using a b connectToStompServer_memoized [of client_connecting 0]
      connectToStompServer_memoized [of "on_disconnected client_closed"]
    by simp
qed

text \<open>
  A client closed while connected still holds its promise until the transport reports
  the disconnection: a call after the close returns that promise, which is fulfilled.
\<close>

theorem connect_after_close_counterexample:
  "closed client_closed
   \<and> connectToStompServer client_closed = (0, client_closed)
   \<and> settled (promises client_closed ! 0) = Some Fulfilled"
  by (simp add: client_closed_def client_connecting_def client_defs)

subsection \<open>Receipts\<close>

lemma put_keys_list:
  "map fst (put k v kvs) = (if k \<in> set (map fst kvs) then map fst kvs else map fst kvs @ [k])"
  by (induction kvs) force+

lemma put_keys: "fst ` set (put k v kvs) = insert k (fst ` set kvs)"
proof -
  have "set (map fst (put k v kvs)) = insert k (set (map fst kvs))"
    unfolding put_keys_list by auto
  then show ?thesis by simp
qed

lemma map_of_put: "map_of (put k v kvs) k = Some v"
  by (induction kvs) auto

lemma connect_receipts: "receipts (snd (connectToStompServer s)) = receipts s"
  by (simp add: connectToStompServer_def new_promise_def emit_def Let_def split: option.splits)

lemma then_promise_receipts: "receipts (then_promise p r s) = receipts s"
  by (simp add: then_promise_def split: option.splits)

lemma invoke_receipts: "receipts (snd (invoke cb err rid s)) = receipts s"
  by (simp add: invoke_def emit_def split: jsval.splits)

lemma doClientSubscribe_receipts: "receipts (snd (doClientSubscribe sid s)) = receipts s"
  by (simp add: doClientSubscribe_def emit_def split: option.splits sum.splits bool.splits)

lemma resubscribe_all_receipts: "receipts (snd (resubscribe_all sids s)) = receipts s"
proof (induction sids arbitrary: s)
  case Nil
  show ?case by simp
next
  case (Cons sid sids)
  obtain e s1 where a: "doClientSubscribe sid s = (e, s1)"
    by (cases "doClientSubscribe sid s")
  then have "receipts s1 = receipts s"
    using doClientSubscribe_receipts [of sid s] by simp
  then show ?case
    using a Cons [of s1] Cons [of s]
    by (cases e) (simp_all split: sum.splits bool.splits)
qed

lemma notify_all_receipts: "receipts (snd (notify_all rs err s)) = receipts s"
proof (induction rs arbitrary: s)
  case Nil
  show ?case by simp
next
  case (Cons a rs)
  obtain r cb where p: "a = (r, cb)" by (cases a)
  obtain e s1 where a: "invoke cb err None s = (e, s1)"
    by (cases "invoke cb err None s")
  then have "receipts s1 = receipts s"
    using invoke_receipts [of cb err None s] by simp
  then show ?case
    using a p Cons [of s1] by (cases e) simp_all
qed

lemma run_reaction_receipts: "receipts (snd (run_reaction r out s)) = receipts s"
  by (cases "(r, out, s)" rule: run_reaction.cases)
     (simp_all add: doClientSubscribe_receipts resubscribe_all_receipts notify_all_receipts
        invoke_receipts split: jsval.splits)

lemma run_job_receipts: "receipts (snd (run_job s)) = receipts s"
  using run_reaction_receipts by (simp add: run_job_def split: list.splits)

lemma on_receipt_receipts: "receipts (snd (on_receipt rid s)) = receipts s"
  by (simp add: on_receipt_def invoke_receipts split: option.splits)

lemma addSubscription_receipts:
  "receipts (addSubscription encode u sid et m opts cb s)
     = put (''receipt-id-'' @ u) cb (receipts s)"
  by (simp add: addSubscription_def addReceipt_def Let_def)

lemma observableCreateAndSubscribe_receipts:
  "receipts (observableCreateAndSubscribe encode u h m s)
     = put (''receipt-id-'' @ u) (h_callback h) (receipts s)"
proof -
  let ?s1 = "addSubscription encode u (h_subscriberId h) (h_entityTypesAndEvents h) m
               (h_options h) (h_callback h) s"
  obtain p s2 where a: "connectToStompServer ?s1 = (p, s2)"
    by (cases "connectToStompServer ?s1")
  then have "receipts s2 = receipts ?s1"
    using connect_receipts [of ?s1] by simp
  then show ?thesis
    using a by (simp add: observableCreateAndSubscribe_def then_promise_receipts
                  addSubscription_receipts)
qed

text \<open>No input takes a receipt out of the table.\<close>

lemma step_receipts:
  "fst ` set (receipts s) \<subseteq> fst ` set (receipts (step encode i s))"
proof (cases i)
  case (Observe u h m)
  then show ?thesis
    by (auto simp add: observableCreateAndSubscribe_receipts put_keys)
next
  case (Receipt rid)
  then show ?thesis by (simp add: on_receipt_receipts)
next
  case Timer
  then show ?thesis
    using connect_receipts [of s]
    by (cases "connectToStompServer s") (simp add: on_timer_def then_promise_receipts)
next
  case Job
  then show ?thesis by (simp add: run_job_receipts)
next
  case Close
  then show ?thesis by (simp add: disconnect_def emit_def Let_def split: option.splits)
qed (simp_all add: on_socketConnected_def on_connected_def settle_def on_disconnected_def
       reconnectStompServer_def emit_def Let_def)

lemma run_receipts:
  "fst ` set (receipts s) \<subseteq> fst ` set (receipts (run encode ins s))"
proof (induction ins arbitrary: s)
  case Nil
  show ?case by simp
next
  case (Cons i ins)
  show ?case
    using step_receipts [of s encode i] Cons [of "step encode i s"] by auto
qed

lemma on_receipt_fun:
  "map_of (receipts s) rid = Some (Fun f) \<Longrightarrow>
   on_receipt rid s = (None, emit [CallbackCall f NullValue (Some rid)] s)"
  by (simp add: on_receipt_def invoke_def)

lemma addSubscription_receipt:
  "map_of (receipts (addSubscription encode u sid et m opts cb s)) (''receipt-id-'' @ u)
     = Some cb"
  by (simp add: addSubscription_receipts map_of_put)

lemma notify_all_funs:
  "notify_all (map (\<lambda>(r, f). (r, Fun f)) rs) err s
     = (None, emit (map (\<lambda>(r, f). CallbackCall f err None) rs) s)"
proof (induction rs arbitrary: s)
  case Nil
  show ?case by (simp add: emit_def)
next
  case (Cons a rs)
  obtain r f where a: "a = (r, f)" by (cases a)
  show ?case
    using Cons [of "emit [CallbackCall f err None] s"] a by (simp add: invoke_def emit_def)
qed

lemma failed_reconnect:
  assumes "closed s" "connPromise s = None" "jobs s = []"
    and "receipts s = map (\<lambda>(r, f). (r, Fun f)) rs"
  shows "fst (run_job (on_timer s)) = None
       \<and> effects (snd (run_job (on_timer s)))
           = effects s @ map (\<lambda>(r, f). CallbackCall f NoValue None) rs
       \<and> receipts (snd (run_job (on_timer s))) = receipts s"
proof -
  let ?s1 = "new_promise (Some (Rejected NoValue)) s"
  have a: "on_timer s = ?s1\<lparr>jobs := [(ResubscribeThen, Rejected NoValue)]\<rparr>"
    using assms(1-3) by (simp add: on_timer_def connect_closed then_promise_def new_promise_def)
  have b: "receipts (?s1\<lparr>jobs := []\<rparr>) = map (\<lambda>(r, f). (r, Fun f)) rs"
    "effects (?s1\<lparr>jobs := []\<rparr>) = effects s"
    using assms(4) by (simp_all add: new_promise_def)
  show ?thesis
    unfolding a
    using b assms(4) notify_all_funs [of rs NoValue "?s1\<lparr>jobs := []\<rparr>"]
    by (simp add: run_job_def emit_def new_promise_def)
qed

lemma client_confirmed_value:
  "effects client_confirmed
     = [StompNew 0, StompConnect 0, StompSubscribe 0 headers0,
        CallbackCall 7 NullValue (Some ''receipt-id-u1'')]"
  "receipts client_confirmed = [(''receipt-id-u1'', Fun 7)]"
  by (simp_all add: client_confirmed_def encode0_def handle0_def headers0_def client_defs)

lemma client_closed_waiting_value:
  "closed client_closed_waiting"
  "connPromise client_closed_waiting = None"
  "jobs client_closed_waiting = []"
  "receipts client_closed_waiting = [(''receipt-id-u1'', Fun 7)]"
  "effects client_closed_waiting
     = [StompNew 0, StompConnect 0, StompSubscribe 0 headers0,
        CallbackCall 7 NullValue (Some ''receipt-id-u1''), SetTimeout 1000]"
  by (simp_all add: client_closed_waiting_def client_confirmed_def encode0_def handle0_def
        headers0_def client_defs)

lemma callback_calls_append:
  "callback_calls (xs @ ys) = callback_calls xs @ callback_calls ys"
  by (induction xs rule: callback_calls.induct) simp_all

lemma on_disconnected_calls:
  "callback_calls (effects (on_disconnected s)) = callback_calls (effects s)"
  by (simp add: on_disconnected_def reconnectStompServer_def emit_def callback_calls_append
        Let_def)

text \<open>
  C4, as the code has it. When the client is closed by the time the reconnect timer
  fires, the promise of the attempt is rejected, with no error value, and the reaction
  calls the completion callback of every entry of the receipts table, in the order of
  the table, with that value. A receipt confirmation leaves the entry in the table, so
  the subscribers whose receipt was confirmed are called as well. A disconnection
  reported by the transport calls no callback.
\<close>

theorem failed_reconnect_notifies_every_receipt:
  assumes "closed s" and "connPromise s = None" and "jobs s = []"
    and "receipts s = map (\<lambda>(r, f). (r, Fun f)) rs"
  shows "fst (run_job (on_timer s)) = None
       \<and> effects (snd (run_job (on_timer s)))
           = effects s @ map (\<lambda>(r, f). CallbackCall f NoValue None) rs
       \<and> receipts (snd (run_job (on_timer s))) = receipts s
       \<and> receipts (snd (on_receipt rid s0)) = receipts s0
       \<and> callback_calls (effects (on_disconnected s0)) = callback_calls (effects s0)"
  using failed_reconnect [OF assms] on_receipt_receipts [of rid s0] on_disconnected_calls [of s0]
  by simp

theorem failed_reconnect_notifies_every_receipt_witness:
  "closed client_closed_waiting \<and> connPromise client_closed_waiting = None
   \<and> jobs client_closed_waiting = []
   \<and> receipts client_closed_waiting = map (\<lambda>(r, f). (r, Fun f)) [(''receipt-id-u1'', 7)]
   \<and> effects (snd (run_job (on_timer client_closed_waiting)))
       = [StompNew 0, StompConnect 0, StompSubscribe 0 headers0,
          CallbackCall 7 NullValue (Some ''receipt-id-u1''), SetTimeout 1000,
          CallbackCall 7 NoValue None]"
proof -
  have r: "receipts client_closed_waiting
             = map (\<lambda>(r, f). (r, Fun f)) [(''receipt-id-u1'', 7)]"
    by (simp add: client_closed_waiting_value)
  show ?thesis
    using client_closed_waiting_value r
      failed_reconnect_notifies_every_receipt
        [OF client_closed_waiting_value(1,2,3) r, of "''receipt-id-u1''" client_confirmed]
    by simp
qed

text \<open>
  The subscriber of \<open>client_confirmed\<close> had its receipt confirmed (the callback was
  called with \<open>null\<close> and the receipt id). The transport is lost, the client is closed,
  the timer fires and the attempt fails: the callback is called again, with the
  failure.
\<close>

theorem confirmed_subscriber_notified_counterexample:
  "effects (run encode0 [Disconnected, Close, Timer, Job] client_confirmed)
     = [StompNew 0, StompConnect 0, StompSubscribe 0 headers0,
        CallbackCall 7 NullValue (Some ''receipt-id-u1''), SetTimeout 1000,
        CallbackCall 7 NoValue None]"
  by (simp add: client_confirmed_def encode0_def handle0_def headers0_def client_defs)

text \<open>
  C5, as the code has it. The entry of a receipt is made when the subscription is
  registered, bound to the caller's callback; a matching receipt confirmation calls
  the callback with \<open>null\<close> and the receipt id and leaves the table as it is; and no
  input of a run takes an entry out of the table.
\<close>

theorem receipts_are_kept:
  "map_of (receipts (addSubscription encode u sid et m opts cb s)) (''receipt-id-'' @ u)
     = Some cb
   \<and> (map_of (receipts s) rid = Some (Fun f) \<longrightarrow>
        on_receipt rid s = (None, emit [CallbackCall f NullValue (Some rid)] s)
        \<and> receipts (snd (on_receipt rid s)) = receipts s)
   \<and> fst ` set (receipts s) \<subseteq> fst ` set (receipts (run encode ins s))"
  using addSubscription_receipt [of encode u sid et m opts cb s] on_receipt_fun [of s rid f]
    on_receipt_receipts [of rid s] run_receipts [of s encode ins]
  by (simp add: emit_def)

theorem receipts_are_kept_witness:
  "map_of (receipts client_confirmed) ''receipt-id-u1'' = Some (Fun 7)
   \<and> on_receipt ''receipt-id-u1'' client_confirmed
       = (None, emit [CallbackCall 7 NullValue (Some ''receipt-id-u1'')] client_confirmed)
   \<and> receipts (snd (on_receipt ''receipt-id-u1'' client_confirmed))
       = [(''receipt-id-u1'', Fun 7)]"
proof -
  have h: "map_of (receipts client_confirmed) ''receipt-id-u1'' = Some (Fun 7)"
    by (simp add: client_confirmed_value)
  show ?thesis
    using h client_confirmed_value(2)
      receipts_are_kept [of encode0 "''u1''" "''sub1''" Undefined 0 Undefined "Fun 7"
        client_confirmed "''receipt-id-u1''" 7 "[]"]
    by (simp add: emit_def)
qed

text \<open>
  The receipt of \<open>client_confirmed\<close> was confirmed once. After a reconnect the
  subscription is sent again with the same receipt id, and the confirmation of that
  calls the callback a second time; the entry is in the table throughout.
\<close>

theorem receipt_resolved_twice_counterexample:
  "effects (run encode0 [Disconnected, Timer, Connected 1, Job, Receipt ''receipt-id-u1'']
             client_confirmed)
     = [StompNew 0, StompConnect 0, StompSubscribe 0 headers0,
        CallbackCall 7 NullValue (Some ''receipt-id-u1''), SetTimeout 1000,
        StompNew 1, StompConnect 1, StompSubscribe 1 headers0,
        CallbackCall 7 NullValue (Some ''receipt-id-u1'')]
   \<and> receipts (run encode0 [Disconnected, Timer, Connected 1, Job, Receipt ''receipt-id-u1'']
                 client_confirmed)
     = [(''receipt-id-u1'', Fun 7)]"
  by (simp add: client_confirmed_def encode0_def handle0_def headers0_def client_defs)

subsection \<open>subscribe\<close>

lemma subscribe_incorrect:
  assumes "sid = [] \<or> Object_keys entity_types = Inr []"
    and "(if truthy callback0 then callback0 else options0) = Fun f"
  shows "subscribe sid entity_types options0 callback0 s
           = (Inr CallbackReturned,
              emit [CallbackCall f (Thrown IncorrectInputParameters) None] s)"
proof -
  have "incorrect_input sid entity_types = Inr True"
    using assms(1) by (auto simp add: incorrect_input_def)
  then show ?thesis
    using assms(2) by (auto simp add: subscribe_def invoke_def Let_def split: if_splits)
qed

lemma subscribe_correct:
  assumes "sid \<noteq> []" "Object_keys entity_types = Inr (k # ks)"
  shows "subscribe sid entity_types options0 callback0 s
           = (Inr (Handle \<lparr> h_subscriberId = sid, h_entityTypesAndEvents = entity_types,
                    h_options = (if truthy callback0 then options0 else Undefined),
                    h_callback = (if truthy callback0 then callback0 else options0),
                    h_tracker = AckOrderTracker_new \<rparr>), s)"
proof -
  have "incorrect_input sid entity_types = Inr False"
    using assms by (auto simp add: incorrect_input_def)
  then show ?thesis
    by (simp add: subscribe_def Let_def)
qed

text \<open>
  C6, as the code has it. \<open>subscribe\<close> tests that the subscriber id is not empty and
  that the filter has at least one key, an entity type. When the test fails, the
  callback is called at once with the error \<open>Incorrect input parameters\<close> and
  \<open>subscribe\<close> returns; the call of the callback is all that happens: no transport
  is made, no promise, no timer. When the test passes, \<open>subscribe\<close> returns the handle
  and the client is as before.
\<close>

theorem subscribe_validates_subscriber_and_keys:
  "((sid = [] \<or> Object_keys entity_types = Inr [])
      \<and> (if truthy callback0 then callback0 else options0) = Fun f \<longrightarrow>
      subscribe sid entity_types options0 callback0 s
        = (Inr CallbackReturned,
           emit [CallbackCall f (Thrown IncorrectInputParameters) None] s))
   \<and> (sid \<noteq> [] \<and> Object_keys entity_types = Inr (k # ks) \<longrightarrow>
      subscribe sid entity_types options0 callback0 s
        = (Inr (Handle \<lparr> h_subscriberId = sid, h_entityTypesAndEvents = entity_types,
                 h_options = (if truthy callback0 then options0 else Undefined),
                 h_callback = (if truthy callback0 then callback0 else options0),
                 h_tracker = AckOrderTracker_new \<rparr>), s))"
  using subscribe_incorrect [of sid entity_types callback0 options0 f s]
    subscribe_correct [of sid entity_types k ks options0 callback0 s]
  by blast

theorem subscribe_validates_subscriber_and_keys_witness:
  "Object_keys (Obj []) = Inr []
   \<and> subscribe ''sub1'' (Obj []) Undefined (Fun 7) client0
       = (Inr CallbackReturned,
          emit [CallbackCall 7 (Thrown IncorrectInputParameters) None] client0)
   \<and> subscribe [] (Obj [(''EntityA'', Arr [Str ''Created''])]) (Fun 7) Undefined client0
       = (Inr CallbackReturned,
          emit [CallbackCall 7 (Thrown IncorrectInputParameters) None] client0)
   \<and> Object_keys (Obj [(''EntityA'', Arr [Str ''Created''])]) = Inr [''EntityA'']
   \<and> subscribe ''sub1'' (Obj [(''EntityA'', Arr [Str ''Created''])]) Undefined (Fun 7) client0
       = (Inr (Handle handle0), client0)"
proof -
  have k: "Object_keys (Obj []) = Inr []"
    "Object_keys (Obj [(''EntityA'', Arr [Str ''Created''])]) = Inr [''EntityA'']"
    by (simp_all add: own_keys_def)
  show ?thesis
    using k
      subscribe_validates_subscriber_and_keys
        [of "''sub1''" "Obj []" "Fun 7" Undefined 7 client0]
      subscribe_validates_subscriber_and_keys
        [of "[]" "Obj [(''EntityA'', Arr [Str ''Created''])]" Undefined "Fun 7" 7 client0]
      subscribe_validates_subscriber_and_keys
        [of "''sub1''" "Obj [(''EntityA'', Arr [Str ''Created''])]" "Fun 7" Undefined 7 client0
          "''EntityA''" "[]"]
    by (simp add: handle0_def)
qed

text \<open>
  A filter with an entity type and no event type has no pair of an entity type and an
  event type; \<open>subscribe\<close> takes it.
\<close>

theorem subscribe_no_pair_counterexample:
  "subscribe ''sub1'' (Obj [(''EntityA'', Arr [])]) Undefined (Fun 7) client0
     = (Inr (Handle \<lparr> h_subscriberId = ''sub1'',
                      h_entityTypesAndEvents = Obj [(''EntityA'', Arr [])],
                      h_options = Undefined, h_callback = Fun 7,
                      h_tracker = AckOrderTracker_new \<rparr>), client0)"
  by (simp add: subscribe_def incorrect_input_def own_keys_def Let_def)

subsection \<open>The encryption codec\<close>

lemma hex_value_digits: "list_all (\<lambda>d. hex_value (hex_digit d) = Some d) [0..<16]"
  by (simp add: upt_rec hex_value_def hex_digit_def hex_digits_def)

lemma hex_value_digit: "d < 16 \<Longrightarrow> hex_value (hex_digit d) = Some d"
  using hex_value_digits by (simp add: list_all_iff)

lemma byte_nibbles: "of_nat (16 * (unat w div 16) + unat w mod 16) = (w :: byte)"
  by simp

lemma hex_roundtrip: "hex_decode (hex_encode ws) = Some ws"
proof (induction ws)
  case Nil
  show ?case by (simp add: hex_encode_def)
next
  case (Cons w ws)
  have "unat w < 256" using unsigned_less [of w] by simp
  then have h: "unat w div 16 < 16" by simp
  have l: "unat w mod 16 < 16" by simp
  show ?case using Cons hex_value_digit [OF h] hex_value_digit [OF l] byte_nibbles [of w]
    by (simp add: hex_encode_def del: of_nat_add of_nat_mult)
qed

lemma pad_length: "0 < n \<Longrightarrow> n dvd length (pad n bs) \<and> pad n bs \<noteq> []"
proof -
  assume n: "0 < n"
  let ?p = "n - length bs mod n"
  have "length bs mod n < n" using n by simp
  then have p: "0 < ?p" "?p \<le> n" by simp_all
  have "(length bs + ?p) mod n = (length bs mod n + ?p) mod n" by (simp add: mod_add_left_eq)
  also have "length bs mod n + ?p = n" using \<open>length bs mod n < n\<close> by simp
  finally have "n dvd length bs + ?p" by (simp add: dvd_eq_mod_eq_0)
  then show ?thesis using p by (auto simp add: pad_def Let_def)
qed

lemma unpad_pad: "0 < n \<Longrightarrow> n < 256 \<Longrightarrow> unpad n (pad n bs) = Inr bs"
proof -
  assume n: "0 < n" "n < 256"
  define p where "p = n - length bs mod n"
  have "length bs mod n < n" using n by simp
  then have p: "0 < p" "p \<le> n" by (simp_all add: p_def)
  have u: "unat (of_nat p :: byte) = p" using p n by (simp add: unat_of_nat)
  obtain q where q: "p = Suc q" using p(1) by (cases p) auto
  have l: "last (bs @ replicate p (of_nat p :: byte)) = of_nat p"
    unfolding q by (simp del: of_nat_Suc)
  have e: "pad n bs = bs @ replicate p (of_nat p)"
    by (simp add: pad_def p_def Let_def)
  show ?thesis
    unfolding e using p u l by (simp add: unpad_def Let_def)
qed

lemma chunks_concat: "0 < n \<Longrightarrow> concat (chunks n xs) = xs"
proof (induction n xs rule: chunks.induct)
  case (1 n xs)
  then show ?case by (subst chunks.simps) auto
qed

lemma chunks_lengths: "0 < n \<Longrightarrow> n dvd length xs \<Longrightarrow> \<forall>b \<in> set (chunks n xs). length b = n"
proof (induction n xs rule: chunks.induct)
  case (1 n xs)
  show ?case
  proof (cases "xs = []")
    case True
    then show ?thesis by (subst chunks.simps) simp
  next
    case False
    have c: "chunks n xs = take n xs # chunks n (drop n xs)"
      using False "1.prems"(1) by (subst chunks.simps) simp
    from "1.prems"(2) obtain k where k: "length xs = n * k" by (auto simp: dvd_def)
    have "k \<noteq> 0" using False k by (cases k) auto
    then have le: "n \<le> length xs" using k by (cases k) auto
    have d: "n dvd length (drop n xs)" using "1.prems"(2) le by simp
    have g: "\<not> (n = 0 \<or> xs = [])" using False "1.prems"(1) by simp
    have ih: "\<forall>b \<in> set (chunks n (drop n xs)). length b = n"
      by (rule "1.IH" [OF g "1.prems"(1) d])
    show ?thesis
    proof
      fix b
      assume "b \<in> set (chunks n xs)"
      then have "b = take n xs \<or> b \<in> set (chunks n (drop n xs))"
        unfolding c by simp
      then show "length b = n"
      proof
        assume "b = take n xs"
        then show ?thesis using le by simp
      next
        assume "b \<in> set (chunks n (drop n xs))"
        then show ?thesis by (rule ih [rule_format])
      qed
    qed
  qed
qed

lemma chunks_of_concat: "0 < n \<Longrightarrow> \<forall>b \<in> set bs. length b = n \<Longrightarrow> chunks n (concat bs) = bs"
proof (induction bs)
  case Nil
  show ?case by (subst chunks.simps) simp
next
  case (Cons b bs)
  then have "length b = n" "b \<noteq> []" by auto
  then show ?case using Cons by (subst chunks.simps) auto
qed

lemma xor_block_cancel: "length a = length b \<Longrightarrow> xor_block (xor_block a b) b = a"
  by (induction a b rule: list_induct2) (simp_all add: xor_block_def xor.assoc)

lemma xor_block_length: "length a = length b \<Longrightarrow> length (xor_block a b) = length a"
  by (simp add: xor_block_def)

lemma cbc_roundtrip:
  assumes "\<And>b. length b = n \<Longrightarrow> length (E b) = n \<and> D (E b) = b"
  shows "length prev = n \<Longrightarrow> \<forall>b \<in> set bs. length b = n \<Longrightarrow>
         cbc_decrypt D prev (cbc_encrypt E prev bs) = bs
         \<and> (\<forall>c \<in> set (cbc_encrypt E prev bs). length c = n)"
proof (induction bs arbitrary: prev)
  case Nil
  show ?case by simp
next
  case (Cons b bs)
  have lb: "length b = n" using Cons.prems by simp
  have lx: "length (xor_block b prev) = n" using lb Cons.prems(1) by (simp add: xor_block_length)
  have e: "length (E (xor_block b prev)) = n" "D (E (xor_block b prev)) = xor_block b prev"
    using assms [OF lx] by simp_all
  have x: "xor_block (xor_block b prev) prev = b" using lb Cons.prems(1) by (simp add: xor_block_cancel)
  show ?case using Cons.IH [OF e(1)] Cons.prems(2) e x by (simp add: Let_def)
qed

lemma cbc_encrypt_length: "length (cbc_encrypt E prev bs) = length bs"
  by (induction bs arbitrary: prev) (simp_all add: Let_def)

lemma concat_blocks_length:
  "\<forall>c \<in> set cs. length c = n \<Longrightarrow> length (concat cs) = n * length cs"
  by (induction cs) simp_all

lemma cipher_roundtrip:
  assumes ok: "block_cipher_ok bc"
    and k: "key_of bc secret = Some k" and v: "iv_of bc iv = Some v"
    and lv: "length v = block_length bc"
  shows "cipher bc secret iv plaintext
           = Inr (hex_encode (concat (cbc_encrypt (encrypt_block bc k) v
                    (chunks (block_length bc) (pad (block_length bc) plaintext)))))"
    and "decipher bc secret iv
           (hex_encode (concat (cbc_encrypt (encrypt_block bc k) v
              (chunks (block_length bc) (pad (block_length bc) plaintext))))) = Inr plaintext"
proof -
  let ?n = "block_length bc"
  let ?bs = "chunks ?n (pad ?n plaintext)"
  let ?cs = "cbc_encrypt (encrypt_block bc k) v ?bs"
  have n: "0 < ?n" "?n < 256"
    using ok by (simp_all add: block_cipher_ok_def)
  have prim: "\<And>b. length b = ?n \<Longrightarrow>
      length (encrypt_block bc k b) = ?n \<and> decrypt_block bc k (encrypt_block bc k b) = b"
    using ok k unfolding block_cipher_ok_def by blast
  show "cipher bc secret iv plaintext = Inr (hex_encode (concat ?cs))"
    using k v lv by (simp add: cipher_def)
  have p: "?n dvd length (pad ?n plaintext)" "pad ?n plaintext \<noteq> []"
    using pad_length [OF n(1), of plaintext] by simp_all
  have cc: "concat ?bs = pad ?n plaintext"
    by (rule chunks_concat [OF n(1)])
  have bl: "\<forall>b \<in> set ?bs. length b = ?n"
    by (rule chunks_lengths [OF n(1) p(1)])
  have rt: "cbc_decrypt (decrypt_block bc k) v ?cs = ?bs"
    and cl: "\<forall>c \<in> set ?cs. length c = ?n"
    using cbc_roundtrip [of ?n "encrypt_block bc k" "decrypt_block bc k" v ?bs, OF prim lv bl]
    by simp_all
  have ch: "chunks ?n (concat ?cs) = ?cs"
    by (rule chunks_of_concat [OF n(1) cl])
  have "?bs \<noteq> []"
    using p(2) cc by auto
  then have "length ?cs \<noteq> 0"
    by (simp add: cbc_encrypt_length)
  then have ne: "concat ?cs \<noteq> []"
    using concat_blocks_length [OF cl] n(1) by (metis length_0_conv mult_is_0 less_numeral_extra(3))
  have dv: "?n dvd length (concat ?cs)"
    using concat_blocks_length [OF cl] by simp
  have "decipher bc secret iv (hex_encode (concat ?cs))
          = unpad ?n (concat (cbc_decrypt (decrypt_block bc k) v (chunks ?n (concat ?cs))))"
    using k v lv ne dv by (auto simp add: decipher_def hex_roundtrip)
  also have "\<dots> = unpad ?n (pad ?n plaintext)"
    unfolding ch rt cc ..
  also have "\<dots> = Inr plaintext"
    by (rule unpad_pad [OF n])
  finally show "decipher bc secret iv (hex_encode (concat ?cs)) = Inr plaintext" .
qed

lemma envelope_roundtrip:
  assumes ok: "block_cipher_ok bc"
    and s: "store keyId = Some secret"
    and c: "cipher bc secret fresh_salt plaintext = Inr ct"
    and j: "from_json (to_json \<lparr>encryptionKeyId = keyId, data = ct, salt = Some fresh_salt\<rparr>)
              = Some \<lparr>encryptionKeyId = keyId, data = ct, salt = Some fresh_salt\<rparr>"
  shows "encrypt bc store to_json fresh_salt keyId plaintext
           = Inr (prefixMarker
                  @ to_json \<lparr>encryptionKeyId = keyId, data = ct, salt = Some fresh_salt\<rparr>)"
    and "decrypt bc store from_json legacy_iv
           (prefixMarker @ to_json \<lparr>encryptionKeyId = keyId, data = ct, salt = Some fresh_salt\<rparr>)
           = Inr plaintext"
proof -
  show "encrypt bc store to_json fresh_salt keyId plaintext
           = Inr (prefixMarker
                  @ to_json \<lparr>encryptionKeyId = keyId, data = ct, salt = Some fresh_salt\<rparr>)"
    using s c by (simp add: encrypt_def findKey_def)
  obtain k v where kv: "key_of bc secret = Some k" "iv_of bc fresh_salt = Some v"
    "length v = block_length bc"
    using c by (auto simp add: cipher_def split: option.splits if_splits)
  have "decipher bc secret fresh_salt ct = Inr plaintext"
    using cipher_roundtrip [OF ok kv, of plaintext] c by simp
  then show "decrypt bc store from_json legacy_iv
           (prefixMarker @ to_json \<lparr>encryptionKeyId = keyId, data = ct, salt = Some fresh_salt\<rparr>)
           = Inr plaintext"
    using s j by (simp add: decrypt_def isEncrypted_def findKey_def)
qed

lemma toy_cipher_ok: "block_cipher_ok toy_cipher"
proof -
  have "\<And>secret k b. toy_key secret = Some k \<Longrightarrow> length b = 2 \<Longrightarrow>
          length (xor_block b k) = 2 \<and> xor_block (xor_block b k) k = b"
  proof -
    fix secret k and b :: "byte list"
    assume "toy_key secret = Some k" and b: "length b = 2"
    then have "length k = 2"
      by (auto simp add: toy_key_def split: option.splits if_splits)
    then show "length (xor_block b k) = 2 \<and> xor_block (xor_block b k) k = b"
      using b by (simp add: xor_block_length xor_block_cancel)
  qed
  then show ?thesis
    unfolding block_cipher_ok_def by (simp add: toy_cipher_def) blast
qed

lemma toy_values:
  "key_of toy_cipher ''0102'' = Some [1, 2]"
  "iv_of toy_cipher ''0304'' = Some [3, 4]"
  by (simp_all add: toy_cipher_def toy_key_def hex_value_def hex_digits_def upt_rec)

lemma toy_cipher_value: "cipher toy_cipher ''0102'' ''0304'' [0x41] = Inr ''4307''"
  using toy_values
  by (simp add: cipher_def toy_cipher_def pad_def chunks.simps xor_block_def hex_encode_def
        hex_digit_def hex_digits_def Let_def)

lemma sample_envelope_values:
  "sample_store ''keyId'' = Some ''0102''"
  "sample_from_json (sample_to_json envelope0) = Some envelope0"
  by (simp_all add: sample_store_def sample_from_json_def sample_to_json_def envelope0_def)

text \<open>
  C9, on the codec as the spec describes it. For a block cipher whose decryption of a
  block undoes its encryption: for every plaintext and every valid pair of key and
  initialization vector, \<open>cipher\<close> returns a ciphertext and \<open>decipher\<close> of it with the
  same pair returns the plaintext; and where \<open>encrypt\<close> finds the key and the JSON text
  of its envelope parses back to the envelope, \<open>decrypt\<close> of what \<open>encrypt\<close> returns
  is the plaintext.
\<close>

theorem encryption_roundtrip:
  assumes "block_cipher_ok bc"
  shows "(key_of bc secret = Some k \<and> iv_of bc iv = Some v \<and> length v = block_length bc \<longrightarrow>
            (\<exists>ct. cipher bc secret iv plaintext = Inr ct
                  \<and> decipher bc secret iv ct = Inr plaintext))
       \<and> (store keyId = Some secret \<and> cipher bc secret fresh_salt plaintext = Inr ciphertext
            \<and> from_json (to_json \<lparr>encryptionKeyId = keyId, data = ciphertext, salt = Some fresh_salt\<rparr>)
                = Some \<lparr>encryptionKeyId = keyId, data = ciphertext, salt = Some fresh_salt\<rparr> \<longrightarrow>
            encrypt bc store to_json fresh_salt keyId plaintext
              = Inr (prefixMarker
                     @ to_json \<lparr>encryptionKeyId = keyId, data = ciphertext, salt = Some fresh_salt\<rparr>)
            \<and> decrypt bc store from_json legacy_iv
                 (prefixMarker
                  @ to_json \<lparr>encryptionKeyId = keyId, data = ciphertext, salt = Some fresh_salt\<rparr>)
              = Inr plaintext)"
proof (intro conjI impI)
  assume "key_of bc secret = Some k \<and> iv_of bc iv = Some v \<and> length v = block_length bc"
  then show "\<exists>ct. cipher bc secret iv plaintext = Inr ct
                \<and> decipher bc secret iv ct = Inr plaintext"
    using cipher_roundtrip [OF assms] by blast
next
  assume h: "store keyId = Some secret \<and> cipher bc secret fresh_salt plaintext = Inr ciphertext
      \<and> from_json (to_json \<lparr>encryptionKeyId = keyId, data = ciphertext, salt = Some fresh_salt\<rparr>)
          = Some \<lparr>encryptionKeyId = keyId, data = ciphertext, salt = Some fresh_salt\<rparr>"
  then show "encrypt bc store to_json fresh_salt keyId plaintext
               = Inr (prefixMarker
                      @ to_json \<lparr>encryptionKeyId = keyId, data = ciphertext, salt = Some fresh_salt\<rparr>)"
    using envelope_roundtrip(1) [OF assms] by blast
  from h show "decrypt bc store from_json legacy_iv
                 (prefixMarker
                  @ to_json \<lparr>encryptionKeyId = keyId, data = ciphertext, salt = Some fresh_salt\<rparr>)
               = Inr plaintext"
    using envelope_roundtrip(2) [OF assms] by blast
qed

theorem encryption_roundtrip_witness:
  "block_cipher_ok toy_cipher
   \<and> key_of toy_cipher ''0102'' = Some [1, 2]
   \<and> iv_of toy_cipher ''0304'' = Some [3, 4]
   \<and> cipher toy_cipher ''0102'' ''0304'' [0x41] = Inr ''4307''
   \<and> decipher toy_cipher ''0102'' ''0304'' ''4307'' = Inr [0x41]
   \<and> sample_store ''keyId'' = Some ''0102''
   \<and> sample_from_json (sample_to_json envelope0) = Some envelope0
   \<and> encrypt toy_cipher sample_store sample_to_json ''0304'' ''keyId'' [0x41]
       = Inr (prefixMarker @ sample_to_json envelope0)
   \<and> decrypt toy_cipher sample_store sample_from_json ''legacy''
        (prefixMarker @ sample_to_json envelope0) = Inr [0x41]"
proof -
  have l: "length [3, 4 :: byte] = block_length toy_cipher"
    by (simp add: toy_cipher_def)
  have e: "\<lparr>encryptionKeyId = ''keyId'', data = ''4307'', salt = Some ''0304''\<rparr> = envelope0"
    by (simp add: envelope0_def)
  have a: "decipher toy_cipher ''0102'' ''0304'' ''4307'' = Inr [0x41]"
    using toy_values l toy_cipher_value
      encryption_roundtrip [OF toy_cipher_ok, where secret = "''0102''" and k = "[1, 2]"
        and iv = "''0304''" and v = "[3, 4]" and plaintext = "[0x41]"]
    by auto
  have b: "encrypt toy_cipher sample_store sample_to_json ''0304'' ''keyId'' [0x41]
             = Inr (prefixMarker @ sample_to_json envelope0)
           \<and> decrypt toy_cipher sample_store sample_from_json ''legacy''
                (prefixMarker @ sample_to_json envelope0) = Inr [0x41]"
    using sample_envelope_values toy_cipher_value e
      encryption_roundtrip [OF toy_cipher_ok, where store = sample_store and keyId = "''keyId''"
        and secret = "''0102''" and fresh_salt = "''0304''" and plaintext = "[0x41]"
        and ciphertext = "''4307''" and from_json = sample_from_json and to_json = sample_to_json
        and legacy_iv = "''legacy''"]
    by simp
  show ?thesis
    using toy_cipher_ok toy_values toy_cipher_value a b sample_envelope_values by simp
qed

subsection \<open>checkEvents\<close>

text \<open>The examples of the documentation of \<open>checkEvents\<close>, and a string that is no object.\<close>

lemma checkEvents_examples:
  "checkEvents sample_parse (Arr []) = Inr False"
  "checkEvents sample_parse (Arr [Obj [(''eventType'', Str ''T'')]]) = Inr False"
  "checkEvents sample_parse (Arr [Obj [(''eventType'', Str ''T''), (''eventData'', Str ''{}'')]])
     = Inr False"
  "checkEvents sample_parse
     (Arr [Obj [(''eventType'', Str ''T''), (''eventData'', Obj [(''a'', Num 1)])]]) = Inr True"
  by (simp_all add: checkEvents_def check_event_def keys_nonempty_def sample_parse_def
        parse_points_def own_keys_def record1_def record2_def record3_def)

lemma checkEvents_json_string_accepted:
  "checkEvents sample_parse
     (Arr [Obj [(''eventType'', Str ''T''), (''eventData'', Str ''\"abc\"'')]]) = Inr True"
  by (simp add: checkEvents_def check_event_def keys_nonempty_def sample_parse_def
        parse_points_def index_keys_def record1_def record2_def record3_def)

text \<open>
  C8. \<open>checkEvents\<close> is documented to return a Boolean, false for every input other
  than a non-empty array of events with an event type and non-empty event data. For
  the event data \<open>'null'\<close>, a string that parses, the code leaves the \<open>try\<close> block
  with \<open>null\<close> and \<open>Object.keys(null)\<close> throws a TypeError: \<open>checkEvents\<close> returns
  nothing there.
\<close>

theorem checkEvents_null_eventData_throws:
  "parse (Str ''null'') = Some Null \<Longrightarrow>
   checkEvents parse (Arr [Obj [(''eventType'', Str ''T''), (''eventData'', Str ''null'')]])
     = Inl TypeError"
  by (simp add: checkEvents_def check_event_def keys_nonempty_def)

theorem checkEvents_null_eventData_throws_witness:
  "sample_parse (Str ''null'') = Some Null \<and>
   checkEvents sample_parse
     (Arr [Obj [(''eventType'', Str ''T''), (''eventData'', Str ''null'')]]) = Inl TypeError"
proof -
  have h: "sample_parse (Str ''null'') = Some Null"
    by (simp add: sample_parse_def parse_points_def)
  show ?thesis
    using h checkEvents_null_eventData_throws [of sample_parse] by simp
qed

end
